theory Spec2Isabelle
  imports Main "HOL-Library.Char_ord" "HOL-Library.List_Lexorder"
begin

section \<open>Decimal coins of package types\<close>

text \<open>
  A shallow embedding of the decimal coin file of package \<^verbatim>\<open>types\<close>: the single coin
  \<^verbatim>\<open>DecCoin\<close>, the coin set \<^verbatim>\<open>DecCoins\<close>, their validation, merge arithmetic,
  truncation and parsing. Go strings are byte strings; \<^typ>\<open>string\<close> with the
  lexicographic order on lists and the byte order on characters is Go's \<^verbatim>\<open><\<close> on strings.
\<close>

subsection \<open>Dec\<close>

text \<open>
  Modelled from the spec: the type \<^verbatim>\<open>Dec\<close> and its methods are declared in the decimal
  file of the package, which is not among the sources. The spec describes it as an exact
  signed value, "effectively an integer scaled by a fixed power of ten"; a \<open>Dec\<close> here is
  that integer, the amount times \<open>10 ^ Precision\<close>. \<^verbatim>\<open>Add\<close>, \<^verbatim>\<open>Sub\<close> and \<^verbatim>\<open>Neg\<close> are exact,
  the comparisons are those of the integers, and \<^verbatim>\<open>TruncateInt\<close> returns "the integer
  part, rounding toward zero". The number of digits is not fixed by the sources and is a
  parameter (\<open>Precision\<close> below). The spec gives the type no size limit, and none is
  modelled.
\<close>

type_synonym Dec = int

definition ZeroDec :: Dec where
  "ZeroDec = 0"

definition Dec_Add :: "Dec \<Rightarrow> Dec \<Rightarrow> Dec" where
  "Dec_Add d d2 = d + d2"

definition Dec_Sub :: "Dec \<Rightarrow> Dec \<Rightarrow> Dec" where
  "Dec_Sub d d2 = d - d2"

definition Dec_Neg :: "Dec \<Rightarrow> Dec" where
  "Dec_Neg d = - d"

definition Dec_IsZero :: "Dec \<Rightarrow> bool" where
  "Dec_IsZero d = (d = 0)"

definition Dec_LT :: "Dec \<Rightarrow> Dec \<Rightarrow> bool" where
  "Dec_LT d d2 = (d < d2)"

definition Dec_LTE :: "Dec \<Rightarrow> Dec \<Rightarrow> bool" where
  "Dec_LTE d d2 = (d \<le> d2)"

definition precisionReuse :: "nat \<Rightarrow> int" where
  "precisionReuse prec = 10 ^ prec"

definition NewDecFromInt :: "nat \<Rightarrow> int \<Rightarrow> Dec" where
  "NewDecFromInt prec i = i * precisionReuse prec"

text \<open>Division that rounds toward zero, written out (\<open>div\<close> on \<^typ>\<open>int\<close> rounds down).\<close>

definition Dec_TruncateInt :: "nat \<Rightarrow> Dec \<Rightarrow> int" where
  "Dec_TruncateInt prec d =
     (if d < 0 then - ((- d) div precisionReuse prec) else d div precisionReuse prec)"

subsection \<open>Coins, errors and panics\<close>

text \<open>
  Modelled from the spec: \<^verbatim>\<open>Coin\<close> is declared in the coin file of the package, which is
  not among the sources: "a denom + whole-number amount". Its fields are read by
  \<^verbatim>\<open>NewDecCoinFromCoin\<close>.
\<close>

record Coin =
  Denom :: string
  Amount :: int

type_synonym Coins = "Coin list"

record DecCoin =
  Denom :: string
  Amount :: Dec

type_synonym DecCoins = "DecCoin list"

text \<open>
  A Go \<^verbatim>\<open>error\<close> is kept as the call that built it: \<^verbatim>\<open>errors.New\<close> with its message,
  \<^verbatim>\<open>fmt.Errorf\<close> with its format and arguments. A function returning \<^verbatim>\<open>error\<close> returns
  \<^typ>\<open>'a option\<close>, \<open>None\<close> for \<^verbatim>\<open>nil\<close>.
\<close>

datatype error =
    errors_New string
  | fmt_Errorf string "arg list"
and arg =
    ArgError error
  | ArgDec Dec
  | ArgString string
  | ArgDecCoins "DecCoin list"

text \<open>
  A panic ends the call; a function that can panic returns \<open>panic + 'a\<close>. The value
  carried is the argument of \<^verbatim>\<open>panic\<close>: an error for the validating constructors, a
  formatted string for the denom mismatch.
\<close>

datatype panic =
    panic_error error
  | panic_string string

subsection \<open>Declarations taken as parameters\<close>

text \<open>
  The functions of this record are called by the code below and declared in files of the
  package that are not among the sources; nothing is assumed about them.
  \<^item> \<open>Precision\<close>: the number of decimal digits of a \<open>Dec\<close>.
  \<^item> \<open>validateCoinDenomContainsSpace\<close>, \<open>validateCoinDenomCase\<close>: the two denom checks.
  \<^item> \<open>Dec_Mul\<close>, \<open>Dec_MulTruncate\<close>, \<open>Dec_Quo\<close>, \<open>Dec_QuoTruncate\<close>: the scalar
    products and quotients of \<open>Dec\<close>, which may panic.
  \<^item> \<open>reDecCoin\<close>: \<^verbatim>\<open>reDecCoin.FindStringSubmatch\<close>, giving submatches 1 and 2 of a match.
  \<^item> \<open>NewDecFromStr\<close>: the parser of a decimal literal.
\<close>

record decls =
  Precision :: nat
  validateCoinDenomContainsSpace :: "string \<Rightarrow> error option"
  validateCoinDenomCase :: "string \<Rightarrow> error option"
  Dec_Mul :: "Dec \<Rightarrow> Dec \<Rightarrow> panic + Dec"
  Dec_MulTruncate :: "Dec \<Rightarrow> Dec \<Rightarrow> panic + Dec"
  Dec_Quo :: "Dec \<Rightarrow> Dec \<Rightarrow> panic + Dec"
  Dec_QuoTruncate :: "Dec \<Rightarrow> Dec \<Rightarrow> panic + Dec"
  reDecCoin :: "string \<Rightarrow> (string \<times> string) option"
  NewDecFromStr :: "string \<Rightarrow> error + Dec"

subsection \<open>Validation and construction of a DecCoin\<close>

definition validateDecCoinAmount :: "Dec \<Rightarrow> bool \<Rightarrow> error option" where
  "validateDecCoinAmount amount strict =
     (if strict \<and> Dec_LTE amount ZeroDec then Some (errors_New ''non-positive coin amount'')
      else if \<not> strict \<and> Dec_LT amount ZeroDec then Some (errors_New ''negative coin amount'')
      else None)"

definition DecCoin_Validate :: "decls \<Rightarrow> DecCoin \<Rightarrow> bool \<Rightarrow> error option" where
  "DecCoin_Validate E coin strict =
     (case validateDecCoinAmount (Amount coin) strict of
        Some err \<Rightarrow> Some (fmt_Errorf ''%s: %s'' [ArgError err, ArgDec (Amount coin)])
      | None \<Rightarrow>
     (case validateCoinDenomContainsSpace E (Denom coin) of
        Some err \<Rightarrow> Some (fmt_Errorf ''%s: %s'' [ArgError err, ArgString (Denom coin)])
      | None \<Rightarrow>
     (case validateCoinDenomCase E (Denom coin) of
        Some err \<Rightarrow> Some (fmt_Errorf ''%s: %s'' [ArgError err, ArgString (Denom coin)])
      | None \<Rightarrow> None)))"

definition NewDecCoinFromDec :: "decls \<Rightarrow> string \<Rightarrow> Dec \<Rightarrow> panic + DecCoin" where
  "NewDecCoinFromDec E denom amount =
     (let c = \<lparr>Denom = denom, Amount = amount\<rparr> in
      case DecCoin_Validate E c False of
        Some err \<Rightarrow> Inl (panic_error err)
      | None \<Rightarrow> Inr c)"

definition NewPositiveDecCoinFromDec :: "decls \<Rightarrow> string \<Rightarrow> Dec \<Rightarrow> panic + DecCoin" where
  "NewPositiveDecCoinFromDec E denom amount =
     (let c = \<lparr>Denom = denom, Amount = amount\<rparr> in
      case DecCoin_Validate E c True of
        Some err \<Rightarrow> Inl (panic_error err)
      | None \<Rightarrow> Inr c)"

definition NewDecCoinFromCoin :: "decls \<Rightarrow> Coin \<Rightarrow> panic + DecCoin" where
  "NewDecCoinFromCoin E coin =
     (let c = \<lparr>Denom = Coin.Denom coin, Amount = NewDecFromInt (Precision E) (Coin.Amount coin)\<rparr> in
      case DecCoin_Validate E c False of
        Some err \<Rightarrow> Inl (panic_error err)
      | None \<Rightarrow> Inr c)"

text \<open>
  Modelled from the spec: \<^verbatim>\<open>NewCoin\<close> is declared in the coin file of the package, which is
  not among the sources. The spec gives one invariant for the decimal amount "and its
  integer counterpart", "enforced by every constructor": the denom passes the denom checks
  and the "amount must be non-negative"; a construction that violates it fails. As in the
  constructors above, the failure is a panic.
\<close>

definition NewCoin :: "decls \<Rightarrow> string \<Rightarrow> int \<Rightarrow> panic + Coin" where
  "NewCoin E denom amount =
     (if amount < 0 then Inl (panic_error (errors_New ''negative coin amount''))
      else case validateCoinDenomContainsSpace E denom of
        Some err \<Rightarrow> Inl (panic_error err)
      | None \<Rightarrow>
     (case validateCoinDenomCase E denom of
        Some err \<Rightarrow> Inl (panic_error err)
      | None \<Rightarrow> Inr \<lparr>Coin.Denom = denom, Coin.Amount = amount\<rparr>))"

subsection \<open>Arithmetic of a DecCoin\<close>

definition DecCoin_Plus :: "DecCoin \<Rightarrow> DecCoin \<Rightarrow> panic + DecCoin" where
  "DecCoin_Plus coin coinB =
     (if Denom coin \<noteq> Denom coinB
      then Inl (panic_string (''coin denom different: '' @ Denom coin @ '' '' @ Denom coinB @ [CHR 0x0A]))
      else Inr \<lparr>Denom = Denom coin, Amount = Dec_Add (Amount coin) (Amount coinB)\<rparr>)"

definition DecCoin_Minus :: "DecCoin \<Rightarrow> DecCoin \<Rightarrow> panic + DecCoin" where
  "DecCoin_Minus coin coinB =
     (if Denom coin \<noteq> Denom coinB
      then Inl (panic_string (''coin denom different: '' @ Denom coin @ '' '' @ Denom coinB @ [CHR 0x0A]))
      else Inr \<lparr>Denom = Denom coin, Amount = Dec_Sub (Amount coin) (Amount coinB)\<rparr>)"

text \<open>
  Go evaluates the operands of the \<^verbatim>\<open>return\<close> from left to right: \<^verbatim>\<open>NewCoin\<close> first, then
  \<^verbatim>\<open>NewDecCoinFromDec\<close>.
\<close>

definition DecCoin_TruncateDecimal :: "decls \<Rightarrow> DecCoin \<Rightarrow> panic + (Coin \<times> DecCoin)" where
  "DecCoin_TruncateDecimal E coin =
     (let truncated = Dec_TruncateInt (Precision E) (Amount coin);
          change = Dec_Sub (Amount coin) (NewDecFromInt (Precision E) truncated)
      in case NewCoin E (Denom coin) truncated of
           Inl p \<Rightarrow> Inl p
         | Inr c \<Rightarrow>
        (case NewDecCoinFromDec E (Denom coin) change of
           Inl p \<Rightarrow> Inl p
         | Inr dc \<Rightarrow> Inr (c, dc)))"

subsection \<open>Coin sets\<close>

fun NewDecCoins :: "decls \<Rightarrow> Coins \<Rightarrow> panic + DecCoins" where
  "NewDecCoins E [] = Inr []"
| "NewDecCoins E (coin # coins) =
     (case NewDecCoinFromCoin E coin of
        Inl p \<Rightarrow> Inl p
      | Inr dc \<Rightarrow>
     (case NewDecCoins E coins of
        Inl p \<Rightarrow> Inl p
      | Inr dcs \<Rightarrow> Inr (dc # dcs)))"

definition strings_Compare :: "string \<Rightarrow> string \<Rightarrow> int" where
  "strings_Compare a b = (if a = b then 0 else if a < b then - 1 else 1)"

text \<open>
  The loop of \<^verbatim>\<open>Plus\<close>: the two lists are the parts of \<^verbatim>\<open>coins\<close> and \<^verbatim>\<open>coinsB\<close> from
  \<^verbatim>\<open>indexA\<close> and \<^verbatim>\<open>indexB\<close> on. \<^verbatim>\<open>strings.Compare\<close> returns -1, 0 or 1, so the last
  branch is the case 1 of the switch.
\<close>

fun DecCoins_Plus_loop :: "DecCoin list \<Rightarrow> DecCoins \<Rightarrow> DecCoins \<Rightarrow> panic + DecCoins" where
  "DecCoins_Plus_loop sums [] [] = Inr sums"
| "DecCoins_Plus_loop sums [] (coinB # restB) = Inr (sums @ coinB # restB)"
| "DecCoins_Plus_loop sums (coinA # restA) [] = Inr (sums @ coinA # restA)"
| "DecCoins_Plus_loop sums (coinA # restA) (coinB # restB) =
     (let c = strings_Compare (Denom coinA) (Denom coinB) in
      if c = - 1 then DecCoins_Plus_loop (sums @ [coinA]) restA (coinB # restB)
      else if c = 0 then
        (if Dec_IsZero (Dec_Add (Amount coinA) (Amount coinB))
         then DecCoins_Plus_loop sums restA restB
         else case DecCoin_Plus coinA coinB of
                Inl p \<Rightarrow> Inl p
              | Inr s \<Rightarrow> DecCoins_Plus_loop (sums @ [s]) restA restB)
      else DecCoins_Plus_loop (sums @ [coinB]) (coinA # restA) restB)"

definition DecCoins_Plus :: "DecCoins \<Rightarrow> DecCoins \<Rightarrow> panic + DecCoins" where
  "DecCoins_Plus coins coinsB = DecCoins_Plus_loop [] coins coinsB"

definition DecCoins_Negative :: "DecCoins \<Rightarrow> DecCoins" where
  "DecCoins_Negative coins =
     map (\<lambda>coin. \<lparr>Denom = Denom coin, Amount = Dec_Neg (Amount coin)\<rparr>) coins"

definition DecCoins_Minus :: "DecCoins \<Rightarrow> DecCoins \<Rightarrow> panic + DecCoins" where
  "DecCoins_Minus coins coinsB = DecCoins_Plus coins (DecCoins_Negative coinsB)"

text \<open>
  The four scalar operations run the same loop, each with its own operation of \<open>Dec\<close>;
  \<open>op\<close> is that operation. A panic of the operation ends the loop.
\<close>

fun DecCoins_scalar_loop :: "(Dec \<Rightarrow> Dec \<Rightarrow> panic + Dec) \<Rightarrow> DecCoins \<Rightarrow> Dec \<Rightarrow> panic + DecCoins" where
  "DecCoins_scalar_loop op [] d = Inr []"
| "DecCoins_scalar_loop op (coin # coins) d =
     (case op (Amount coin) d of
        Inl p \<Rightarrow> Inl p
      | Inr a \<Rightarrow>
     (case DecCoins_scalar_loop op coins d of
        Inl p \<Rightarrow> Inl p
      | Inr res \<Rightarrow> Inr (\<lparr>Denom = Denom coin, Amount = a\<rparr> # res)))"

definition MulDec :: "decls \<Rightarrow> DecCoins \<Rightarrow> Dec \<Rightarrow> panic + DecCoins" where
  "MulDec E coins d = DecCoins_scalar_loop (Dec_Mul E) coins d"

definition MulDecTruncate :: "decls \<Rightarrow> DecCoins \<Rightarrow> Dec \<Rightarrow> panic + DecCoins" where
  "MulDecTruncate E coins d = DecCoins_scalar_loop (Dec_MulTruncate E) coins d"

definition QuoDec :: "decls \<Rightarrow> DecCoins \<Rightarrow> Dec \<Rightarrow> panic + DecCoins" where
  "QuoDec E coins d = DecCoins_scalar_loop (Dec_Quo E) coins d"

definition QuoDecTruncate :: "decls \<Rightarrow> DecCoins \<Rightarrow> Dec \<Rightarrow> panic + DecCoins" where
  "QuoDecTruncate E coins d = DecCoins_scalar_loop (Dec_QuoTruncate E) coins d"

function AmountOf :: "DecCoins \<Rightarrow> string \<Rightarrow> Dec" where
  "AmountOf coins denom =
     (if length coins = 0 then ZeroDec
      else if length coins = 1 then
        (let coin = coins ! 0 in
         if Denom coin = denom then Amount coin else ZeroDec)
      else
        (let midIdx = length coins div 2;
             coin = coins ! midIdx
         in if denom < Denom coin then AmountOf (take midIdx coins) denom
            else if denom = Denom coin then Amount coin
            else AmountOf (drop (midIdx + 1) coins) denom))"
  by pat_completeness auto
termination
  by (relation "measure (\<lambda>(coins, denom). length coins)") auto

declare AmountOf.simps [simp del]

fun IsValid_loop :: "decls \<Rightarrow> string \<Rightarrow> DecCoins \<Rightarrow> bool" where
  "IsValid_loop E lowDenom [] = True"
| "IsValid_loop E lowDenom (coin # rest) =
     (if DecCoin_Validate E coin True \<noteq> None then False
      else if Denom coin \<le> lowDenom then False
      else IsValid_loop E (Denom coin) rest)"

fun IsValid :: "decls \<Rightarrow> DecCoins \<Rightarrow> bool" where
  "IsValid E [] = True"
| "IsValid E [coin] = (if DecCoin_Validate E coin True \<noteq> None then False else True)"
| "IsValid E (coin # rest) =
     (if \<not> IsValid E [coin] then False
      else IsValid_loop E (Denom coin) rest)"

text \<open>
  The loop of the set's \<^verbatim>\<open>TruncateDecimal\<close>, with \<^verbatim>\<open>out\<close> (filled up to the current
  index) and \<^verbatim>\<open>changeSum\<close> passed along.
\<close>

fun DecCoins_TruncateDecimal_loop ::
    "decls \<Rightarrow> Coins \<Rightarrow> DecCoins \<Rightarrow> DecCoins \<Rightarrow> panic + (Coins \<times> DecCoins)" where
  "DecCoins_TruncateDecimal_loop E out changeSum [] = Inr (out, changeSum)"
| "DecCoins_TruncateDecimal_loop E out changeSum (coin # rest) =
     (case DecCoin_TruncateDecimal E coin of
        Inl p \<Rightarrow> Inl p
      | Inr (truncated, change) \<Rightarrow>
     (case DecCoins_Plus changeSum [change] of
        Inl p \<Rightarrow> Inl p
      | Inr changeSum' \<Rightarrow>
          DecCoins_TruncateDecimal_loop E (out @ [truncated]) changeSum' rest))"

definition DecCoins_TruncateDecimal :: "decls \<Rightarrow> DecCoins \<Rightarrow> panic + (Coins \<times> DecCoins)" where
  "DecCoins_TruncateDecimal E coins = DecCoins_TruncateDecimal_loop E [] [] coins"

subsection \<open>Sorting and parsing\<close>

text \<open>
  \<^verbatim>\<open>Sort\<close> sorts by \<^verbatim>\<open>Less\<close>, the order of the denoms. The library sort is not stable:
  among coins of one denom its order is not fixed, and the stable sort here is one of the
  orders it may give. \<^verbatim>\<open>ParseDecCoins\<close> returns such a set only inside the error of a
  failed validity check.
\<close>

definition DecCoins_Sort :: "DecCoins \<Rightarrow> DecCoins" where
  "DecCoins_Sort coins = sort_key Denom coins"

text \<open>
  \<^verbatim>\<open>strings.TrimSpace\<close> removes the white space of Unicode from both ends of a string. A
  Go string is a byte string read as UTF-8, so the white space characters are the byte
  sequences that encode them: tab, line feed, vertical tab, form feed, carriage return and
  space (one byte each), U+0085 and U+00A0 (two bytes), U+1680, U+2000 to U+200A, U+2028,
  U+2029, U+202F, U+205F and U+3000 (three bytes). A byte that starts no valid encoding is
  read as the replacement character, which is not white space, and ends the trimming.
  \<open>leadingSpace\<close> and \<open>trailingSpace\<close> give the width of a white space character at the
  start and at the end of a string, zero when there is none; the library trims the left
  end first, then the right end.
\<close>

definition spaceRunes :: "string list" where
  "spaceRunes =
     [[CHR 0x09], [CHR 0x0A], [CHR 0x0B], [CHR 0x0C], [CHR 0x0D], [CHR 0x20],
      [CHR 0xC2, CHR 0x85], [CHR 0xC2, CHR 0xA0],
      [CHR 0xE1, CHR 0x9A, CHR 0x80],
      [CHR 0xE2, CHR 0x80, CHR 0x80], [CHR 0xE2, CHR 0x80, CHR 0x81], [CHR 0xE2, CHR 0x80, CHR 0x82],
      [CHR 0xE2, CHR 0x80, CHR 0x83], [CHR 0xE2, CHR 0x80, CHR 0x84], [CHR 0xE2, CHR 0x80, CHR 0x85],
      [CHR 0xE2, CHR 0x80, CHR 0x86], [CHR 0xE2, CHR 0x80, CHR 0x87], [CHR 0xE2, CHR 0x80, CHR 0x88],
      [CHR 0xE2, CHR 0x80, CHR 0x89], [CHR 0xE2, CHR 0x80, CHR 0x8A],
      [CHR 0xE2, CHR 0x80, CHR 0xA8], [CHR 0xE2, CHR 0x80, CHR 0xA9], [CHR 0xE2, CHR 0x80, CHR 0xAF],
      [CHR 0xE2, CHR 0x81, CHR 0x9F],
      [CHR 0xE3, CHR 0x80, CHR 0x80]]"

definition leadingSpace :: "string \<Rightarrow> nat" where
  "leadingSpace s =
     (case find (\<lambda>enc. take (length enc) s = enc) spaceRunes of
        None \<Rightarrow> 0
      | Some enc \<Rightarrow> length enc)"

definition trailingSpace :: "string \<Rightarrow> nat" where
  "trailingSpace s =
     (case find (\<lambda>enc. length enc \<le> length s \<and> drop (length s - length enc) s = enc) spaceRunes of
        None \<Rightarrow> 0
      | Some enc \<Rightarrow> length enc)"

lemma leadingSpace_le: "leadingSpace s \<le> length s"
  by (auto simp: leadingSpace_def split: option.splits dest!: find_Some_iff [THEN iffD1])
     (metis length_take min.cobounded1)

lemma trailingSpace_le: "trailingSpace s \<le> length s"
  by (auto simp: trailingSpace_def split: option.splits dest!: find_Some_iff [THEN iffD1])

function strings_TrimLeftSpace :: "string \<Rightarrow> string" where
  "strings_TrimLeftSpace s =
     (if leadingSpace s = 0 then s else strings_TrimLeftSpace (drop (leadingSpace s) s))"
  by pat_completeness auto
termination
proof (relation "measure length")
  show "wf (measure length)" by simp
next
  fix s :: string
  assume "leadingSpace s \<noteq> 0"
  then show "(drop (leadingSpace s) s, s) \<in> measure length"
    using leadingSpace_le [of s] by simp
qed

function strings_TrimRightSpace :: "string \<Rightarrow> string" where
  "strings_TrimRightSpace s =
     (if trailingSpace s = 0 then s else strings_TrimRightSpace (take (length s - trailingSpace s) s))"
  by pat_completeness auto
termination
proof (relation "measure length")
  show "wf (measure length)" by simp
next
  fix s :: string
  assume "trailingSpace s \<noteq> 0"
  then show "(take (length s - trailingSpace s) s, s) \<in> measure length"
    using trailingSpace_le [of s] by simp
qed

definition strings_TrimSpace :: "string \<Rightarrow> string" where
  "strings_TrimSpace s = strings_TrimRightSpace (strings_TrimLeftSpace s)"


declare strings_TrimLeftSpace.simps [simp del] strings_TrimRightSpace.simps [simp del]

text \<open>
  \<^verbatim>\<open>Split\<close> of the expression \<^verbatim>\<open>,|;\<close> with no limit: the pieces between the separators,
  empty pieces kept.
\<close>

fun splitRe_Split :: "string \<Rightarrow> string list" where
  "splitRe_Split [] = [[]]"
| "splitRe_Split (c # cs) =
     (if c = CHR '','' \<or> c = CHR '';'' then [] # splitRe_Split cs
      else case splitRe_Split cs of
             [] \<Rightarrow> [[c]]
           | w # ws \<Rightarrow> (c # w) # ws)"

text \<open>
  The single coin parsers return \<^verbatim>\<open>(DecCoin, error)\<close>; beside an error the coin is the
  zero value, which no caller reads, so the pair is a sum.
\<close>

definition parseDecCoinString :: "decls \<Rightarrow> string \<Rightarrow> error + DecCoin" where
  "parseDecCoinString E coinStr =
     (let coinStr = strings_TrimSpace coinStr in
      case reDecCoin E coinStr of
        None \<Rightarrow> Inl (fmt_Errorf ''invalid decimal coin expression %q'' [ArgString coinStr])
      | Some (amountStr, denomStr) \<Rightarrow>
     (case NewDecFromStr E amountStr of
        Inl err \<Rightarrow> Inl (fmt_Errorf ''failed to parse decimal coin amount: %s'' [ArgString amountStr])
      | Inr amount \<Rightarrow> Inr \<lparr>Denom = denomStr, Amount = amount\<rparr>))"

definition ParseDecCoin :: "decls \<Rightarrow> string \<Rightarrow> error + DecCoin" where
  "ParseDecCoin E coinStr =
     (case parseDecCoinString E coinStr of
        Inl err \<Rightarrow> Inl (fmt_Errorf ''failed to parse decimal coin: %s'' [ArgError err])
      | Inr coin \<Rightarrow>
     (case DecCoin_Validate E coin False of
        Some err \<Rightarrow> Inl (fmt_Errorf ''validation error: %s'' [ArgError err])
      | None \<Rightarrow> Inr coin))"

fun ParseDecCoins_loop :: "decls \<Rightarrow> DecCoins \<Rightarrow> string list \<Rightarrow> error + DecCoins" where
  "ParseDecCoins_loop E coins [] = Inr coins"
| "ParseDecCoins_loop E coins (coinStr # coinStrs) =
     (case ParseDecCoin E coinStr of
        Inl err \<Rightarrow> Inl err
      | Inr coin \<Rightarrow> ParseDecCoins_loop E (coins @ [coin]) coinStrs)"

text \<open>
  \<^verbatim>\<open>ParseDecCoins\<close> returns both results, the coins and the error; \<open>[]\<close> is the \<^verbatim>\<open>nil\<close>
  set.
\<close>

definition ParseDecCoins :: "decls \<Rightarrow> string \<Rightarrow> DecCoins \<times> error option" where
  "ParseDecCoins E coinsStr =
     (let coinsStr = strings_TrimSpace coinsStr in
      if length coinsStr = 0 then ([], None)
      else case ParseDecCoins_loop E [] (splitRe_Split coinsStr) of
        Inl err \<Rightarrow> ([], Some err)
      | Inr coins \<Rightarrow>
          (let coins = DecCoins_Sort coins in
           if \<not> IsValid E coins
           then ([], Some (fmt_Errorf ''parsed decimal coins are invalid: %#v'' [ArgDecCoins coins]))
           else (coins, None)))"

subsection \<open>Functions used in the proofs\<close>

text \<open>
  The result of the loop of \<^verbatim>\<open>Plus\<close> as a function of the two sets, and the amount of a
  denom found by a scan from the left. They state what the loop and the binary search
  compute; the code is the functions above.
\<close>

fun mergeCoins :: "DecCoins \<Rightarrow> DecCoins \<Rightarrow> DecCoins" where
  "mergeCoins [] coinsB = coinsB"
| "mergeCoins (coinA # restA) [] = coinA # restA"
| "mergeCoins (coinA # restA) (coinB # restB) =
     (if Denom coinA < Denom coinB then coinA # mergeCoins restA (coinB # restB)
      else if Denom coinA = Denom coinB then
        (if Amount coinA + Amount coinB = 0 then mergeCoins restA restB
         else \<lparr>Denom = Denom coinA, Amount = Amount coinA + Amount coinB\<rparr> # mergeCoins restA restB)
      else coinB # mergeCoins (coinA # restA) restB)"

fun amountIn :: "DecCoins \<Rightarrow> string \<Rightarrow> Dec" where
  "amountIn [] denom = 0"
| "amountIn (coin # coins) denom = (if Denom coin = denom then Amount coin else amountIn coins denom)"

text \<open>
  The two results of \<^verbatim>\<open>DecCoin.TruncateDecimal\<close> as the fields are computed before the
  constructors check them, and the integer part as a decimal coin.
\<close>

definition truncatedOf :: "decls \<Rightarrow> DecCoin \<Rightarrow> Coin" where
  "truncatedOf E coin =
     \<lparr>Coin.Denom = Denom coin, Coin.Amount = Dec_TruncateInt (Precision E) (Amount coin)\<rparr>"

definition changeOf :: "decls \<Rightarrow> DecCoin \<Rightarrow> DecCoin" where
  "changeOf E coin =
     \<lparr>Denom = Denom coin,
      Amount = Amount coin - NewDecFromInt (Precision E) (Dec_TruncateInt (Precision E) (Amount coin))\<rparr>"

definition integerPartOf :: "decls \<Rightarrow> DecCoin \<Rightarrow> DecCoin" where
  "integerPartOf E coin =
     \<lparr>Denom = Denom coin,
      Amount = NewDecFromInt (Precision E) (Dec_TruncateInt (Precision E) (Amount coin))\<rparr>"

subsection \<open>An instance of the parameters\<close>

text \<open>
  One choice of the parameters, for evaluating the functions at concrete inputs: one
  decimal digit; a denom is refused when it holds a space or an upper case letter; the
  products and quotients round toward zero and the quotients panic on a zero divisor; a
  coin string is a run of digits followed by a non-empty rest, and a decimal literal is a
  run of digits.
\<close>

definition isDigit :: "char \<Rightarrow> bool" where
  "isDigit c = (CHR ''0'' \<le> c \<and> c \<le> CHR ''9'')"

definition quoTrunc :: "int \<Rightarrow> int \<Rightarrow> int" where
  "quoTrunc a b = sgn a * sgn b * (\<bar>a\<bar> div \<bar>b\<bar>)"

definition digitsVal :: "string \<Rightarrow> int" where
  "digitsVal s = foldl (\<lambda>n c. 10 * n + (int (of_char c) - 48)) 0 s"

definition example_decls :: decls where
  "example_decls =
     \<lparr>Precision = 1,
      validateCoinDenomContainsSpace =
        (\<lambda>denom. if CHR '' '' \<in> set denom then Some (errors_New ''denom contains space'') else None),
      validateCoinDenomCase =
        (\<lambda>denom. if list_ex (\<lambda>c. CHR ''A'' \<le> c \<and> c \<le> CHR ''Z'') denom
                  then Some (errors_New ''denom contains upper case'') else None),
      Dec_Mul = (\<lambda>d d2. Inr (quoTrunc (d * d2) 10)),
      Dec_MulTruncate = (\<lambda>d d2. Inr (quoTrunc (d * d2) 10)),
      Dec_Quo = (\<lambda>d d2. if d2 = 0 then Inl (panic_string ''division by zero'')
                          else Inr (quoTrunc (d * 10) d2)),
      Dec_QuoTruncate = (\<lambda>d d2. if d2 = 0 then Inl (panic_string ''division by zero'')
                                  else Inr (quoTrunc (d * 10) d2)),
      reDecCoin =
        (\<lambda>s. if takeWhile isDigit s = [] \<or> dropWhile isDigit s = [] then None
              else Some (takeWhile isDigit s, dropWhile isDigit s)),
      NewDecFromStr =
        (\<lambda>s. if s \<noteq> [] \<and> list_all isDigit s then Inr (digitsVal s * 10)
              else Inl (errors_New ''bad decimal''))\<rparr>"

section \<open>Properties\<close>

lemmas Dec_defs =
  ZeroDec_def Dec_Add_def Dec_Sub_def Dec_Neg_def Dec_IsZero_def Dec_LT_def Dec_LTE_def

lemmas example_defs = example_decls_def isDigit_def quoTrunc_def digitsVal_def

lemmas TrimSpace_defs =
  strings_TrimSpace_def strings_TrimLeftSpace.simps strings_TrimRightSpace.simps
  leadingSpace_def trailingSpace_def spaceRunes_def

subsection \<open>Single coins\<close>

lemma Validate_None_iff:
  "DecCoin_Validate E coin strict = None \<longleftrightarrow>
     (if strict then 0 < Amount coin else 0 \<le> Amount coin) \<and>
     validateCoinDenomContainsSpace E (Denom coin) = None \<and>
     validateCoinDenomCase E (Denom coin) = None"
  by (auto simp: DecCoin_Validate_def validateDecCoinAmount_def Dec_defs split: option.splits)

text \<open>
  Claim C8. Two coins of different denoms make \<^verbatim>\<open>DecCoin.Plus\<close> and \<^verbatim>\<open>DecCoin.Minus\<close>
  panic, with the formatted string as the panic value: not an \<^verbatim>\<open>error\<close> that is
  returned, and not an error of the validation that a constructor panics with. With equal
  denoms they return the coin of that denom with the amounts added, or subtracted.
\<close>

theorem DecCoin_Plus_Minus_denoms:
  "(Denom coin \<noteq> Denom coinB \<longrightarrow>
      DecCoin_Plus coin coinB =
        Inl (panic_string (''coin denom different: '' @ Denom coin @ '' '' @ Denom coinB @ [CHR 0x0A])) \<and>
      DecCoin_Minus coin coinB =
        Inl (panic_string (''coin denom different: '' @ Denom coin @ '' '' @ Denom coinB @ [CHR 0x0A]))) \<and>
   (Denom coin = Denom coinB \<longrightarrow>
      DecCoin_Plus coin coinB = Inr \<lparr>Denom = Denom coin, Amount = Amount coin + Amount coinB\<rparr> \<and>
      DecCoin_Minus coin coinB = Inr \<lparr>Denom = Denom coin, Amount = Amount coin - Amount coinB\<rparr>)"
  by (simp add: DecCoin_Plus_def DecCoin_Minus_def Dec_defs)

theorem DecCoin_Plus_Minus_denoms_witness:
  "DecCoin_Plus \<lparr>Denom = ''atom'', Amount = 15\<rparr> \<lparr>Denom = ''btc'', Amount = 20\<rparr> =
     Inl (panic_string (''coin denom different: atom btc'' @ [CHR 0x0A])) \<and>
   DecCoin_Minus \<lparr>Denom = ''atom'', Amount = 15\<rparr> \<lparr>Denom = ''btc'', Amount = 20\<rparr> =
     Inl (panic_string (''coin denom different: atom btc'' @ [CHR 0x0A])) \<and>
   DecCoin_Plus \<lparr>Denom = ''atom'', Amount = 15\<rparr> \<lparr>Denom = ''atom'', Amount = 20\<rparr> =
     Inr \<lparr>Denom = ''atom'', Amount = 35\<rparr> \<and>
   DecCoin_Minus \<lparr>Denom = ''atom'', Amount = 15\<rparr> \<lparr>Denom = ''atom'', Amount = 20\<rparr> =
     Inr \<lparr>Denom = ''atom'', Amount = - 5\<rparr>"
  using DecCoin_Plus_Minus_denoms [of "\<lparr>Denom = ''atom'', Amount = 15\<rparr>" "\<lparr>Denom = ''btc'', Amount = 20\<rparr>"]
        DecCoin_Plus_Minus_denoms [of "\<lparr>Denom = ''atom'', Amount = 15\<rparr>" "\<lparr>Denom = ''atom'', Amount = 20\<rparr>"]
  by simp

text \<open>
  Claim C9. For a coin whose denom passes both denom checks, \<^verbatim>\<open>Validate(false)\<close> returns
  no error exactly when the amount is at least zero, and \<^verbatim>\<open>Validate(true)\<close> exactly when
  it is above zero. A violation is reported as the error of the amount check; and the
  constructors built on \<^verbatim>\<open>Validate\<close> return the coin with the amount they were given or
  panic with that error: no amount is replaced by another.
\<close>

theorem DecCoin_Validate_amount:
  assumes "validateCoinDenomContainsSpace E (Denom coin) = None"
      and "validateCoinDenomCase E (Denom coin) = None"
  shows "(DecCoin_Validate E coin False = None \<longleftrightarrow> 0 \<le> Amount coin) \<and>
         (DecCoin_Validate E coin True = None \<longleftrightarrow> 0 < Amount coin) \<and>
         (Amount coin < 0 \<longrightarrow> DecCoin_Validate E coin False =
            Some (fmt_Errorf ''%s: %s''
              [ArgError (errors_New ''negative coin amount''), ArgDec (Amount coin)])) \<and>
         (Amount coin \<le> 0 \<longrightarrow> DecCoin_Validate E coin True =
            Some (fmt_Errorf ''%s: %s''
              [ArgError (errors_New ''non-positive coin amount''), ArgDec (Amount coin)])) \<and>
         NewDecCoinFromDec E (Denom coin) (Amount coin) =
           (if 0 \<le> Amount coin then Inr coin
            else Inl (panic_error (fmt_Errorf ''%s: %s''
                   [ArgError (errors_New ''negative coin amount''), ArgDec (Amount coin)]))) \<and>
         NewPositiveDecCoinFromDec E (Denom coin) (Amount coin) =
           (if 0 < Amount coin then Inr coin
            else Inl (panic_error (fmt_Errorf ''%s: %s''
                   [ArgError (errors_New ''non-positive coin amount''), ArgDec (Amount coin)])))"
  using assms
  by (simp add: NewDecCoinFromDec_def NewPositiveDecCoinFromDec_def DecCoin_Validate_def
        validateDecCoinAmount_def Dec_defs)

theorem DecCoin_Validate_amount_witness:
  "validateCoinDenomContainsSpace example_decls ''atom'' = None \<and>
   validateCoinDenomCase example_decls ''atom'' = None \<and>
   DecCoin_Validate example_decls \<lparr>Denom = ''atom'', Amount = 0\<rparr> False = None \<and>
   DecCoin_Validate example_decls \<lparr>Denom = ''atom'', Amount = 0\<rparr> True =
     Some (fmt_Errorf ''%s: %s'' [ArgError (errors_New ''non-positive coin amount''), ArgDec 0]) \<and>
   DecCoin_Validate example_decls \<lparr>Denom = ''atom'', Amount = - 5\<rparr> False =
     Some (fmt_Errorf ''%s: %s'' [ArgError (errors_New ''negative coin amount''), ArgDec (- 5)]) \<and>
   NewDecCoinFromDec example_decls ''atom'' (- 5) =
     Inl (panic_error (fmt_Errorf ''%s: %s''
       [ArgError (errors_New ''negative coin amount''), ArgDec (- 5)])) \<and>
   NewPositiveDecCoinFromDec example_decls ''atom'' 15 = Inr \<lparr>Denom = ''atom'', Amount = 15\<rparr>"
proof -
  have s: "validateCoinDenomContainsSpace example_decls ''atom'' = None"
    by (simp add: example_defs)
  have c: "validateCoinDenomCase example_decls ''atom'' = None"
    by (simp add: example_defs)
  show ?thesis
    using s c
      DecCoin_Validate_amount [of example_decls "\<lparr>Denom = ''atom'', Amount = 0\<rparr>"]
      DecCoin_Validate_amount [of example_decls "\<lparr>Denom = ''atom'', Amount = - 5\<rparr>"]
      DecCoin_Validate_amount [of example_decls "\<lparr>Denom = ''atom'', Amount = 15\<rparr>"]
    by simp
qed

subsection \<open>The validity check\<close>

lemma IsValid_loop_iff:
  "IsValid_loop E lowDenom coins \<longleftrightarrow>
     (\<forall>c\<in>set coins. DecCoin_Validate E c True = None) \<and> sorted_wrt (<) (lowDenom # map Denom coins)"
  by (induction coins arbitrary: lowDenom) (auto simp: not_le)

lemma IsValid_iff:
  "IsValid E coins \<longleftrightarrow>
     (\<forall>c\<in>set coins. DecCoin_Validate E c True = None) \<and> sorted_wrt (<) (map Denom coins)"
proof (cases coins)
  case Nil
  then show ?thesis by simp
next
  case (Cons c rest)
  then show ?thesis
    by (cases rest) (auto simp: IsValid_loop_iff)
qed

text \<open>
  Claim C5. \<^verbatim>\<open>IsValid\<close> is false for a set that is not sorted by denom, for a set in which
  a denom occurs twice, and for a set with an entry whose amount is zero or negative. It is
  true for the empty set, for one entry with an amount above zero and a denom that passes
  the denom checks, and for any sequence of such entries whose denoms strictly increase.
\<close>

theorem IsValid_rejects_accepts:
  "(\<not> sorted (map Denom coins) \<longrightarrow> \<not> IsValid E coins) \<and>
   (\<not> distinct (map Denom coins) \<longrightarrow> \<not> IsValid E coins) \<and>
   ((\<exists>c\<in>set coins. Amount c \<le> 0) \<longrightarrow> \<not> IsValid E coins) \<and>
   IsValid E [] \<and>
   (0 < Amount coin \<and> validateCoinDenomContainsSpace E (Denom coin) = None \<and>
      validateCoinDenomCase E (Denom coin) = None \<longrightarrow> IsValid E [coin]) \<and>
   ((\<forall>c\<in>set coins. 0 < Amount c \<and> validateCoinDenomContainsSpace E (Denom c) = None \<and>
        validateCoinDenomCase E (Denom c) = None) \<and>
      sorted_wrt (<) (map Denom coins) \<longrightarrow> IsValid E coins)"
proof -
  have "\<not> IsValid E coins" if "\<not> sorted (map Denom coins)"
    using that strict_sorted_imp_sorted by (auto simp: IsValid_iff)
  moreover have "\<not> IsValid E coins" if "\<not> distinct (map Denom coins)"
    using that by (auto simp: IsValid_iff strict_sorted_iff)
  moreover have "\<not> IsValid E coins" if "\<exists>c\<in>set coins. Amount c \<le> 0"
    using that by (force simp: IsValid_iff Validate_None_iff)
  moreover have "IsValid E []" by simp
  moreover have "IsValid E [coin]"
    if "0 < Amount coin \<and> validateCoinDenomContainsSpace E (Denom coin) = None \<and>
      validateCoinDenomCase E (Denom coin) = None"
    using that by (simp add: Validate_None_iff)
  moreover have "IsValid E coins"
    if "(\<forall>c\<in>set coins. 0 < Amount c \<and> validateCoinDenomContainsSpace E (Denom c) = None \<and>
        validateCoinDenomCase E (Denom c) = None) \<and> sorted_wrt (<) (map Denom coins)"
    using that by (simp add: IsValid_iff Validate_None_iff)
  ultimately show ?thesis by blast
qed

theorem IsValid_rejects_accepts_witness:
  "\<not> sorted (map Denom [\<lparr>Denom = ''btc'', Amount = 10\<rparr>, \<lparr>Denom = ''atom'', Amount = 20\<rparr>]) \<and>
   \<not> IsValid example_decls [\<lparr>Denom = ''btc'', Amount = 10\<rparr>, \<lparr>Denom = ''atom'', Amount = 20\<rparr>] \<and>
   \<not> distinct (map Denom [\<lparr>Denom = ''atom'', Amount = 10\<rparr>, \<lparr>Denom = ''atom'', Amount = 20\<rparr>]) \<and>
   \<not> IsValid example_decls [\<lparr>Denom = ''atom'', Amount = 10\<rparr>, \<lparr>Denom = ''atom'', Amount = 20\<rparr>] \<and>
   \<not> IsValid example_decls [\<lparr>Denom = ''atom'', Amount = 10\<rparr>, \<lparr>Denom = ''btc'', Amount = 0\<rparr>] \<and>
   \<not> IsValid example_decls [\<lparr>Denom = ''atom'', Amount = - 10\<rparr>] \<and>
   IsValid example_decls [] \<and>
   IsValid example_decls [\<lparr>Denom = ''atom'', Amount = 10\<rparr>] \<and>
   IsValid example_decls [\<lparr>Denom = ''atom'', Amount = 10\<rparr>, \<lparr>Denom = ''btc'', Amount = 20\<rparr>,
     \<lparr>Denom = ''eth'', Amount = 5\<rparr>]"
  using
    IsValid_rejects_accepts [of "[\<lparr>Denom = ''btc'', Amount = 10\<rparr>, \<lparr>Denom = ''atom'', Amount = 20\<rparr>]" example_decls]
    IsValid_rejects_accepts [of "[\<lparr>Denom = ''atom'', Amount = 10\<rparr>, \<lparr>Denom = ''atom'', Amount = 20\<rparr>]" example_decls]
    IsValid_rejects_accepts [of "[\<lparr>Denom = ''atom'', Amount = 10\<rparr>, \<lparr>Denom = ''btc'', Amount = 0\<rparr>]" example_decls]
    IsValid_rejects_accepts [of "[\<lparr>Denom = ''atom'', Amount = - 10\<rparr>]" example_decls]
    IsValid_rejects_accepts [of "[\<lparr>Denom = ''atom'', Amount = 10\<rparr>, \<lparr>Denom = ''btc'', Amount = 20\<rparr>,
     \<lparr>Denom = ''eth'', Amount = 5\<rparr>]" example_decls "\<lparr>Denom = ''atom'', Amount = 10\<rparr>"]
  by (simp add: example_defs)

subsection \<open>Looking up a denom\<close>

lemma AmountOf_unfold:
  "2 \<le> length coins \<Longrightarrow> AmountOf coins denom =
        (if denom < Denom (coins ! (length coins div 2)) then AmountOf (take (length coins div 2) coins) denom
         else if denom = Denom (coins ! (length coins div 2)) then Amount (coins ! (length coins div 2))
         else AmountOf (drop (Suc (length coins div 2)) coins) denom)"
  apply (subst AmountOf.simps)
  apply (simp only: Let_def)
  apply (subgoal_tac "length coins \<noteq> 0 \<and> length coins \<noteq> 1")
  apply (simp only: if_False Suc_eq_plus1)
   apply simp
  apply (cases coins; simp)
  done

lemma AmountOf_sorted:
  assumes "sorted (map Denom coins)"
  shows "(denom \<in> Denom ` set coins \<longrightarrow>
            (\<exists>c\<in>set coins. Denom c = denom \<and> AmountOf coins denom = Amount c)) \<and>
         (denom \<notin> Denom ` set coins \<longrightarrow> AmountOf coins denom = 0)"
  using assms
proof (induction coins denom rule: AmountOf.induct)
  case (1 coins denom)
  consider "length coins = 0" | "length coins = 1" | "2 \<le> length coins" by linarith
  then show ?case
  proof cases
    case 1
    then show ?thesis by (subst AmountOf.simps) (simp add: ZeroDec_def)
  next
    case 2
    then obtain c where c: "coins = [c]" by (cases coins) auto
    then show ?thesis by (auto simp: AmountOf.simps [of "[c]"] ZeroDec_def)
  next
    case 3
    define m where "m = length coins div 2"
    have m: "m < length coins" using 3 by (simp add: m_def)
    have nonempty: "coins \<noteq> []" using 3 by auto
    have split: "coins = take m coins @ coins ! m # drop (Suc m) coins"
      using m by (rule id_take_nth_drop)
    have srt: "sorted (map Denom (take m coins) @ Denom (coins ! m) # map Denom (drop (Suc m) coins))"
      using "1.prems" split by (metis list.simps(9) map_append)
    have lo: "\<forall>x\<in>set (take m coins). Denom x \<le> Denom (coins ! m)"
      using srt by (auto simp: sorted_append)
    have hi: "\<forall>x\<in>set (drop (Suc m) coins). Denom (coins ! m) \<le> Denom x"
      using srt by (auto simp: sorted_append)
    have sl: "sorted (map Denom (take m coins))" and sh: "sorted (map Denom (drop (Suc m) coins))"
      using srt by (auto simp: sorted_append)
    have "set coins = set (take m coins @ coins ! m # drop (Suc m) coins)"
      by (rule arg_cong [OF split])
    then have mem: "set coins = set (take m coins) \<union> {coins ! m} \<union> set (drop (Suc m) coins)"
      by simp
    have unf: "AmountOf coins denom =
        (if denom < Denom (coins ! m) then AmountOf (take m coins) denom
         else if denom = Denom (coins ! m) then Amount (coins ! m)
         else AmountOf (drop (Suc m) coins) denom)"
      unfolding m_def using 3 by (rule AmountOf_unfold)
    show ?thesis
    proof (cases "denom < Denom (coins ! m)")
      case True
      have ih: "(denom \<in> Denom ` set (take m coins) \<longrightarrow>
            (\<exists>c\<in>set (take m coins). Denom c = denom \<and> AmountOf (take m coins) denom = Amount c)) \<and>
         (denom \<notin> Denom ` set (take m coins) \<longrightarrow> AmountOf (take m coins) denom = 0)"
        using "1.IH"(1) [of m "coins ! m"] 3 True sl nonempty by (simp add: m_def)
      have "denom \<in> Denom ` set coins \<longleftrightarrow> denom \<in> Denom ` set (take m coins)"
        using True hi mem by auto
      then show ?thesis using ih unf True mem by auto
    next
      case False
      show ?thesis
      proof (cases "denom = Denom (coins ! m)")
        case True
        then show ?thesis using unf m by auto
      next
        case ne: False
        have ih: "(denom \<in> Denom ` set (drop (Suc m) coins) \<longrightarrow>
            (\<exists>c\<in>set (drop (Suc m) coins). Denom c = denom \<and> AmountOf (drop (Suc m) coins) denom = Amount c)) \<and>
         (denom \<notin> Denom ` set (drop (Suc m) coins) \<longrightarrow> AmountOf (drop (Suc m) coins) denom = 0)"
          using "1.IH"(2) [of m "coins ! m"] 3 False ne sh nonempty by (simp add: m_def)
        have "denom \<in> Denom ` set coins \<longleftrightarrow> denom \<in> Denom ` set (drop (Suc m) coins)"
          using False ne lo mem by auto
        then show ?thesis using ih unf False ne mem by auto
      qed
    qed
  qed
qed

text \<open>
  Claim C4. On a set sorted by denom, \<^verbatim>\<open>AmountOf\<close> returns the amount of an entry with
  the denom asked for when the set has one (the entry, when denoms are unique), and the zero
  decimal when it has none. On the empty set it returns zero for every denom; on the set
  of the one entry \<open>(atom, 5)\<close> it returns 5 for \<open>atom\<close> and zero for \<open>uatom\<close>.
\<close>

theorem AmountOf_sorted_entry:
  assumes "sorted (map Denom coins)"
  shows "(denom \<in> Denom ` set coins \<longrightarrow>
            (\<exists>c\<in>set coins. Denom c = denom \<and> AmountOf coins denom = Amount c)) \<and>
         (denom \<notin> Denom ` set coins \<longrightarrow> AmountOf coins denom = ZeroDec) \<and>
         AmountOf [] denom = ZeroDec \<and>
         AmountOf [\<lparr>Denom = ''atom'', Amount = NewDecFromInt prec 5\<rparr>] ''atom'' = NewDecFromInt prec 5 \<and>
         AmountOf [\<lparr>Denom = ''atom'', Amount = NewDecFromInt prec 5\<rparr>] ''uatom'' = ZeroDec"
proof -
  have "AmountOf [] denom = ZeroDec"
    by (simp add: AmountOf.simps [of "[]"])
  moreover have "AmountOf [\<lparr>Denom = ''atom'', Amount = NewDecFromInt prec 5\<rparr>] ''atom'' = NewDecFromInt prec 5"
    by (simp add: AmountOf.simps [of "[c]" for c])
  moreover have "AmountOf [\<lparr>Denom = ''atom'', Amount = NewDecFromInt prec 5\<rparr>] ''uatom'' = ZeroDec"
    by (simp add: AmountOf.simps [of "[c]" for c])
  ultimately show ?thesis
    using AmountOf_sorted [OF assms, of denom] by (simp add: ZeroDec_def)
qed

theorem AmountOf_sorted_entry_witness:
  "sorted (map Denom [\<lparr>Denom = ''atom'', Amount = 50\<rparr>, \<lparr>Denom = ''btc'', Amount = 70\<rparr>,
      \<lparr>Denom = ''eth'', Amount = 90\<rparr>]) \<and>
   AmountOf [\<lparr>Denom = ''atom'', Amount = 50\<rparr>, \<lparr>Denom = ''btc'', Amount = 70\<rparr>,
      \<lparr>Denom = ''eth'', Amount = 90\<rparr>] ''eth'' = 90 \<and>
   AmountOf [\<lparr>Denom = ''atom'', Amount = 50\<rparr>, \<lparr>Denom = ''btc'', Amount = 70\<rparr>,
      \<lparr>Denom = ''eth'', Amount = 90\<rparr>] ''uatom'' = 0"
  using
    AmountOf_sorted_entry [of "[\<lparr>Denom = ''atom'', Amount = 50\<rparr>, \<lparr>Denom = ''btc'', Amount = 70\<rparr>,
      \<lparr>Denom = ''eth'', Amount = 90\<rparr>]" "''eth''"]
    AmountOf_sorted_entry [of "[\<lparr>Denom = ''atom'', Amount = 50\<rparr>, \<lparr>Denom = ''btc'', Amount = 70\<rparr>,
      \<lparr>Denom = ''eth'', Amount = 90\<rparr>]" "''uatom''"]
  by (simp add: ZeroDec_def)

subsection \<open>Scalar products and quotients\<close>

lemma scalar_loop_Inr_iff:
  "DecCoins_scalar_loop op coins d = Inr res \<longleftrightarrow>
     list_all2 (\<lambda>c r. Denom r = Denom c \<and> op (Amount c) d = Inr (Amount r)) coins res"
proof (induction coins arbitrary: res)
  case Nil
  then show ?case by auto
next
  case (Cons coin coins)
  show ?case
  proof (cases res)
    case Nil
    then show ?thesis by (auto split: sum.splits)
  next
    case (Cons r rs)
    have eq: "\<lparr>Denom = Denom coin, Amount = a\<rparr> = r \<longleftrightarrow> Denom r = Denom coin \<and> Amount r = a" for a
      by (cases r) auto
    show ?thesis
      unfolding Cons using Cons.IH [of rs]
      by (auto simp: eq split: sum.splits)
  qed
qed

lemma scalar_loop_total:
  "(\<forall>c\<in>set coins. \<exists>a. op (Amount c) d = Inr a) \<Longrightarrow> \<exists>res. DecCoins_scalar_loop op coins d = Inr res"
  by (induction coins) (auto split: sum.splits)

lemma scalar_loop_entries:
  "DecCoins_scalar_loop op coins d = Inr res \<longleftrightarrow>
     length res = length coins \<and>
     (\<forall>i<length coins. Denom (res ! i) = Denom (coins ! i) \<and>
        op (Amount (coins ! i)) d = Inr (Amount (res ! i)))"
  by (auto simp: scalar_loop_Inr_iff list_all2_conv_all_nth)

text \<open>
  Claim C6. Each of \<^verbatim>\<open>MulDec\<close>, \<^verbatim>\<open>MulDecTruncate\<close>, \<^verbatim>\<open>QuoDec\<close> and
  \<^verbatim>\<open>QuoDecTruncate\<close> returns exactly the sets of the length of its input whose entry at
  every position has the denom of the input's entry and, as amount, the result of the scalar
  operation on the input's amount: no entry is dropped, one whose amount becomes zero is
  kept. The set operation returns whenever the scalar operation returns on every amount
  (a panic of the scalar operation is the only way it does not).
\<close>

theorem scalar_operations_entrywise:
  "(MulDec E coins d = Inr res \<longleftrightarrow>
      length res = length coins \<and>
      (\<forall>i<length coins. Denom (res ! i) = Denom (coins ! i) \<and>
         Dec_Mul E (Amount (coins ! i)) d = Inr (Amount (res ! i)))) \<and>
   (MulDecTruncate E coins d = Inr res \<longleftrightarrow>
      length res = length coins \<and>
      (\<forall>i<length coins. Denom (res ! i) = Denom (coins ! i) \<and>
         Dec_MulTruncate E (Amount (coins ! i)) d = Inr (Amount (res ! i)))) \<and>
   (QuoDec E coins d = Inr res \<longleftrightarrow>
      length res = length coins \<and>
      (\<forall>i<length coins. Denom (res ! i) = Denom (coins ! i) \<and>
         Dec_Quo E (Amount (coins ! i)) d = Inr (Amount (res ! i)))) \<and>
   (QuoDecTruncate E coins d = Inr res \<longleftrightarrow>
      length res = length coins \<and>
      (\<forall>i<length coins. Denom (res ! i) = Denom (coins ! i) \<and>
         Dec_QuoTruncate E (Amount (coins ! i)) d = Inr (Amount (res ! i)))) \<and>
   ((\<forall>c\<in>set coins. \<exists>a. Dec_Mul E (Amount c) d = Inr a) \<longrightarrow>
      (\<exists>r. MulDec E coins d = Inr r)) \<and>
   ((\<forall>c\<in>set coins. \<exists>a. Dec_MulTruncate E (Amount c) d = Inr a) \<longrightarrow>
      (\<exists>r. MulDecTruncate E coins d = Inr r)) \<and>
   ((\<forall>c\<in>set coins. \<exists>a. Dec_Quo E (Amount c) d = Inr a) \<longrightarrow>
      (\<exists>r. QuoDec E coins d = Inr r)) \<and>
   ((\<forall>c\<in>set coins. \<exists>a. Dec_QuoTruncate E (Amount c) d = Inr a) \<longrightarrow>
      (\<exists>r. QuoDecTruncate E coins d = Inr r))"
  unfolding MulDec_def MulDecTruncate_def QuoDec_def QuoDecTruncate_def
  using scalar_loop_entries scalar_loop_total by (intro conjI impI) blast+

theorem scalar_operations_entrywise_witness:
  "MulDec example_decls [\<lparr>Denom = ''atom'', Amount = 5\<rparr>, \<lparr>Denom = ''btc'', Amount = 25\<rparr>] 1 =
     Inr [\<lparr>Denom = ''atom'', Amount = 0\<rparr>, \<lparr>Denom = ''btc'', Amount = 2\<rparr>] \<and>
   length [\<lparr>Denom = ''atom'', Amount = 0\<rparr>, \<lparr>Denom = ''btc'', Amount = (2::int)\<rparr>] =
     length [\<lparr>Denom = ''atom'', Amount = 5\<rparr>, \<lparr>Denom = ''btc'', Amount = (25::int)\<rparr>] \<and>
   Dec_Mul example_decls 5 1 = Inr 0 \<and> Dec_Mul example_decls 25 1 = Inr 2 \<and>
   QuoDecTruncate example_decls [\<lparr>Denom = ''atom'', Amount = 5\<rparr>, \<lparr>Denom = ''btc'', Amount = 25\<rparr>] 20 =
     Inr [\<lparr>Denom = ''atom'', Amount = 2\<rparr>, \<lparr>Denom = ''btc'', Amount = 12\<rparr>]"
proof -
  have m: "MulDec example_decls [\<lparr>Denom = ''atom'', Amount = 5\<rparr>, \<lparr>Denom = ''btc'', Amount = 25\<rparr>] 1 =
     Inr [\<lparr>Denom = ''atom'', Amount = 0\<rparr>, \<lparr>Denom = ''btc'', Amount = 2\<rparr>]"
    by (simp add: MulDec_def example_defs)
  have q: "Dec_QuoTruncate example_decls 5 20 = Inr 2 \<and> Dec_QuoTruncate example_decls 25 20 = Inr 12"
    by (simp add: example_defs)
  show ?thesis
    using m q
      scalar_operations_entrywise [of example_decls
        "[\<lparr>Denom = ''atom'', Amount = 5\<rparr>, \<lparr>Denom = ''btc'', Amount = 25\<rparr>]" 1
        "[\<lparr>Denom = ''atom'', Amount = 0\<rparr>, \<lparr>Denom = ''btc'', Amount = 2\<rparr>]"]
      scalar_operations_entrywise [of example_decls
        "[\<lparr>Denom = ''atom'', Amount = 5\<rparr>, \<lparr>Denom = ''btc'', Amount = 25\<rparr>]" 20
        "[\<lparr>Denom = ''atom'', Amount = 2\<rparr>, \<lparr>Denom = ''btc'', Amount = 12\<rparr>]"]
    by (simp add: All_less_Suc2)
qed

subsection \<open>Plus, Negative and Minus of coin sets\<close>

lemma Plus_loop_merge: "DecCoins_Plus_loop sums coins coinsB = Inr (sums @ mergeCoins coins coinsB)"
proof (induction sums coins coinsB rule: DecCoins_Plus_loop.induct)
  case (4 sums coinA restA coinB restB)
  then show ?case
    by (auto simp: strings_Compare_def Dec_defs DecCoin_Plus_def Let_def)
qed simp_all

lemma Plus_merge: "DecCoins_Plus coins coinsB = Inr (mergeCoins coins coinsB)"
  by (simp add: DecCoins_Plus_def Plus_loop_merge)

lemma mergeCoins_Nil2 [simp]: "mergeCoins coins [] = coins"
  by (cases coins) simp_all

lemma mergeCoins_commute: "mergeCoins coins coinsB = mergeCoins coinsB coins"
  by (induction coins coinsB rule: mergeCoins.induct) (auto simp: add.commute)

lemma mergeCoins_entries:
  "c \<in> set (mergeCoins coins coinsB) \<Longrightarrow>
     c \<in> set coins \<or> c \<in> set coinsB \<or>
     (\<exists>a\<in>set coins. \<exists>b\<in>set coinsB. Denom a = Denom b \<and>
        c = \<lparr>Denom = Denom a, Amount = Amount a + Amount b\<rparr>)"
  by (induction coins coinsB rule: mergeCoins.induct) (auto split: if_splits)

lemma mergeCoins_denoms:
  "Denom ` set (mergeCoins coins coinsB) \<subseteq> Denom ` set coins \<union> Denom ` set coinsB"
proof
  fix d assume "d \<in> Denom ` set (mergeCoins coins coinsB)"
  then obtain c where c: "c \<in> set (mergeCoins coins coinsB)" "d = Denom c" by auto
  show "d \<in> Denom ` set coins \<union> Denom ` set coinsB"
    using mergeCoins_entries [OF c(1)] c(2) by auto
qed

lemma mergeCoins_sorted:
  "sorted_wrt (<) (map Denom coins) \<Longrightarrow> sorted_wrt (<) (map Denom coinsB) \<Longrightarrow>
     sorted_wrt (<) (map Denom (mergeCoins coins coinsB))"
proof (induction coins coinsB rule: mergeCoins.induct)
  case (3 coinA restA coinB restB)
  have lo: "\<forall>d\<in>Denom ` set restA. Denom coinA < d" "\<forall>d\<in>Denom ` set restB. Denom coinB < d"
    using 3(5,6) by auto
  show ?case
  proof (cases "Denom coinA < Denom coinB")
    case True
    have "\<forall>d\<in>Denom ` set (mergeCoins restA (coinB # restB)). Denom coinA < d"
      using mergeCoins_denoms [of restA "coinB # restB"] lo True by fastforce
    then show ?thesis using True 3 by auto
  next
    case False
    show ?thesis
    proof (cases "Denom coinA = Denom coinB")
      case True
      have "\<forall>d\<in>Denom ` set (mergeCoins restA restB). Denom coinA < d"
        using mergeCoins_denoms [of restA restB] lo True by fastforce
      then show ?thesis using True 3 by auto
    next
      case ne: False
      then have lt: "Denom coinB < Denom coinA" using False by auto
      have "\<forall>d\<in>Denom ` set (mergeCoins (coinA # restA) restB). Denom coinB < d"
        using mergeCoins_denoms [of "coinA # restA" restB] lo lt by fastforce
      then show ?thesis using False ne 3 by auto
    qed
  qed
qed simp_all

lemma amountIn_notin: "denom \<notin> Denom ` set coins \<Longrightarrow> amountIn coins denom = 0"
  by (induction coins) auto

lemma amountIn_member:
  "distinct (map Denom coins) \<Longrightarrow> c \<in> set coins \<Longrightarrow> amountIn coins (Denom c) = Amount c"
  by (induction coins) (auto simp: rev_image_eqI)

lemma AmountOf_amountIn:
  assumes "sorted_wrt (<) (map Denom coins)"
  shows "AmountOf coins denom = amountIn coins denom"
proof -
  have s: "sorted (map Denom coins)" and d: "distinct (map Denom coins)"
    using assms strict_sorted_iff by auto
  show ?thesis
  proof (cases "denom \<in> Denom ` set coins")
    case True
    then obtain c where "c \<in> set coins" "Denom c = denom" "AmountOf coins denom = Amount c"
      using AmountOf_sorted [OF s, of denom] by auto
    then show ?thesis using amountIn_member [OF d] by auto
  next
    case False
    then show ?thesis using AmountOf_sorted [OF s, of denom] by (simp add: amountIn_notin)
  qed
qed

lemma amountIn_merge:
  "sorted_wrt (<) (map Denom coins) \<Longrightarrow> sorted_wrt (<) (map Denom coinsB) \<Longrightarrow>
     amountIn (mergeCoins coins coinsB) denom = amountIn coins denom + amountIn coinsB denom"
proof (induction coins coinsB rule: mergeCoins.induct)
  case (3 coinA restA coinB restB)
  have lo: "\<forall>d\<in>Denom ` set restA. Denom coinA < d" "\<forall>d\<in>Denom ` set restB. Denom coinB < d"
    using 3(5,6) by auto
  have sA: "sorted_wrt (<) (map Denom restA)" and sB: "sorted_wrt (<) (map Denom restB)"
    using 3(5,6) by auto
  show ?case
  proof (cases "Denom coinA < Denom coinB")
    case True
    have "Denom coinA \<notin> Denom ` set (coinB # restB)" using True lo by auto
    then have "amountIn (coinB # restB) (Denom coinA) = 0" by (rule amountIn_notin)
    then show ?thesis using True 3(1) [OF True sA 3(6)] by auto
  next
    case False
    show ?thesis
    proof (cases "Denom coinA = Denom coinB")
      case True
      have "Denom coinA \<notin> Denom ` set restA" "Denom coinA \<notin> Denom ` set restB"
        using True lo by auto
      then have z: "amountIn restA (Denom coinA) = 0" "amountIn restB (Denom coinA) = 0"
        by (auto intro: amountIn_notin)
      show ?thesis
      proof (cases "Amount coinA + Amount coinB = 0")
        case zero: True
        show ?thesis using True zero z 3(2) [OF False True zero sA sB] by auto
      next
        case nz: False
        show ?thesis using True nz z 3(3) [OF False True nz sA sB] by auto
      qed
    next
      case ne: False
      then have lt: "Denom coinB < Denom coinA" using False by auto
      have "Denom coinB \<notin> Denom ` set (coinA # restA)" using lt lo by auto
      then have "amountIn (coinA # restA) (Denom coinB) = 0" by (rule amountIn_notin)
      then show ?thesis using False ne 3(4) [OF False ne 3(5) sB] by auto
    qed
  qed
qed simp_all

lemma amountIn_ext:
  "sorted_wrt (<) (map Denom xs) \<Longrightarrow> sorted_wrt (<) (map Denom ys) \<Longrightarrow>
   \<forall>c\<in>set xs. Amount c \<noteq> 0 \<Longrightarrow> \<forall>c\<in>set ys. Amount c \<noteq> 0 \<Longrightarrow>
   \<forall>d. amountIn xs d = amountIn ys d \<Longrightarrow> xs = ys"
proof (induction xs arbitrary: ys)
  case Nil
  show ?case
  proof (cases ys)
    case (Cons y ys')
    then have "amountIn ys (Denom y) = Amount y" by simp
    then show ?thesis using Nil Cons by (metis amountIn.simps(1) list.set_intros(1))
  qed simp
next
  case (Cons x xs)
  show ?case
  proof (cases ys)
    case Nil
    have "amountIn (x # xs) (Denom x) = Amount x" by simp
    then show ?thesis using Cons.prems Nil by (metis amountIn.simps(1) list.set_intros(1))
  next
    case ys: (Cons y ys')
    have lox: "\<forall>d\<in>Denom ` set xs. Denom x < d" and loy: "\<forall>d\<in>Denom ` set ys'. Denom y < d"
      using Cons.prems(1,2) ys by auto
    have nzx: "Amount x \<noteq> 0" and nzy: "Amount y \<noteq> 0" using Cons.prems(3,4) ys by auto
    have eqd: "Denom x = Denom y"
    proof (rule ccontr)
      assume ne: "Denom x \<noteq> Denom y"
      show False
      proof (cases "Denom x < Denom y")
        case True
        then have "Denom x \<notin> Denom ` set ys" using loy ys by auto
        then have "amountIn ys (Denom x) = 0" by (rule amountIn_notin)
        moreover have "amountIn (x # xs) (Denom x) = Amount x" by simp
        ultimately show False using Cons.prems(5) nzx by metis
      next
        case False
        then have "Denom y < Denom x" using ne by auto
        then have "Denom y \<notin> Denom ` set (x # xs)" using lox by auto
        then have "amountIn (x # xs) (Denom y) = 0" by (rule amountIn_notin)
        moreover have "amountIn ys (Denom y) = Amount y" using ys by simp
        ultimately show False using Cons.prems(5) nzy by metis
      qed
    qed
    have "amountIn (x # xs) (Denom x) = amountIn ys (Denom x)" using Cons.prems(5) by blast
    then have eqa: "Amount x = Amount y" using eqd ys by simp
    have xy: "x = y" using eqd eqa by simp
    have tails: "amountIn xs d = amountIn ys' d" for d
    proof (cases "d = Denom x")
      case True
      then have "d \<notin> Denom ` set xs" "d \<notin> Denom ` set ys'" using lox loy eqd by auto
      then show ?thesis by (simp add: amountIn_notin)
    next
      case False
      have "amountIn (x # xs) d = amountIn ys d" using Cons.prems(5) by blast
      then show ?thesis using False eqd ys by simp
    qed
    have "xs = ys'"
      using Cons.IH [of ys'] Cons.prems ys tails by auto
    then show ?thesis using xy ys by simp
  qed
qed

lemma IsValid_merge:
  assumes "IsValid E coins" "IsValid E coinsB"
  shows "IsValid E (mergeCoins coins coinsB)"
proof -
  have sA: "sorted_wrt (<) (map Denom coins)" and sB: "sorted_wrt (<) (map Denom coinsB)"
    and vA: "\<forall>c\<in>set coins. DecCoin_Validate E c True = None"
    and vB: "\<forall>c\<in>set coinsB. DecCoin_Validate E c True = None"
    using assms by (auto simp: IsValid_iff)
  have "DecCoin_Validate E c True = None" if c: "c \<in> set (mergeCoins coins coinsB)" for c
  proof -
    consider "c \<in> set coins" | "c \<in> set coinsB"
      | a b where "a \<in> set coins" "b \<in> set coinsB" "Denom a = Denom b"
          "c = \<lparr>Denom = Denom a, Amount = Amount a + Amount b\<rparr>"
      using mergeCoins_entries [OF c] by blast
    then show ?thesis
    proof cases
      case 1 then show ?thesis using vA by blast
    next
      case 2 then show ?thesis using vB by blast
    next
      case 3
      have "DecCoin_Validate E a True = None" "DecCoin_Validate E b True = None"
        using 3 vA vB by auto
      then show ?thesis using 3(4) by (simp add: Validate_None_iff)
    qed
  qed
  then show ?thesis
    using mergeCoins_sorted [OF sA sB] by (simp add: IsValid_iff)
qed

lemma IsValid_nonzero: "IsValid E coins \<Longrightarrow> \<forall>c\<in>set coins. Amount c \<noteq> 0"
  by (force simp: IsValid_iff Validate_None_iff)

lemma IsValid_sorted: "IsValid E coins \<Longrightarrow> sorted_wrt (<) (map Denom coins)"
  by (simp add: IsValid_iff)

lemma mergeCoins_assoc:
  assumes "IsValid E A" "IsValid E B" "IsValid E C"
  shows "mergeCoins (mergeCoins A B) C = mergeCoins A (mergeCoins B C)"
proof -
  have vAB: "IsValid E (mergeCoins A B)" and vBC: "IsValid E (mergeCoins B C)"
    using assms by (auto intro: IsValid_merge)
  have v1: "IsValid E (mergeCoins (mergeCoins A B) C)" and v2: "IsValid E (mergeCoins A (mergeCoins B C))"
    using assms vAB vBC by (auto intro: IsValid_merge)
  have "amountIn (mergeCoins (mergeCoins A B) C) d = amountIn (mergeCoins A (mergeCoins B C)) d" for d
    using assms vAB vBC by (simp add: amountIn_merge IsValid_sorted)
  then show ?thesis
    using amountIn_ext [OF IsValid_sorted [OF v1] IsValid_sorted [OF v2]
      IsValid_nonzero [OF v1] IsValid_nonzero [OF v2]] by blast
qed

text \<open>
  Claim C2. For canonical sets \<open>A\<close>, \<open>B\<close> and \<open>C\<close> (sets that \<^verbatim>\<open>IsValid\<close> accepts):
  \<^verbatim>\<open>Plus\<close> of \<open>A\<close> and \<open>B\<close> returns a canonical set, in which the amount of every denom
  is the sum of its amounts in \<open>A\<close> and in \<open>B\<close>; \<^verbatim>\<open>Plus\<close> is commutative; and it is
  associative: adding \<open>C\<close> to the sum of \<open>A\<close> and \<open>B\<close> gives the set that adding the sum
  of \<open>B\<close> and \<open>C\<close> to \<open>A\<close> gives.
\<close>

theorem DecCoins_Plus_canonical:
  assumes "IsValid E A" and "IsValid E B" and "IsValid E C"
  shows "(\<exists>S. DecCoins_Plus A B = Inr S \<and> IsValid E S \<and>
            (\<forall>d. AmountOf S d = Dec_Add (AmountOf A d) (AmountOf B d))) \<and>
         DecCoins_Plus A B = DecCoins_Plus B A \<and>
         (\<exists>AB BC R. DecCoins_Plus A B = Inr AB \<and> DecCoins_Plus B C = Inr BC \<and>
            DecCoins_Plus AB C = Inr R \<and> DecCoins_Plus A BC = Inr R)"
proof -
  have v: "IsValid E (mergeCoins A B)" using assms by (auto intro: IsValid_merge)
  have "AmountOf (mergeCoins A B) d = Dec_Add (AmountOf A d) (AmountOf B d)" for d
    using assms v by (simp add: AmountOf_amountIn IsValid_sorted amountIn_merge Dec_defs)
  then have first: "\<exists>S. DecCoins_Plus A B = Inr S \<and> IsValid E S \<and>
            (\<forall>d. AmountOf S d = Dec_Add (AmountOf A d) (AmountOf B d))"
    using v by (simp add: Plus_merge)
  have comm: "DecCoins_Plus A B = DecCoins_Plus B A"
    by (simp add: Plus_merge mergeCoins_commute [of A B])
  have assoc: "\<exists>AB BC R. DecCoins_Plus A B = Inr AB \<and> DecCoins_Plus B C = Inr BC \<and>
            DecCoins_Plus AB C = Inr R \<and> DecCoins_Plus A BC = Inr R"
    using mergeCoins_assoc [OF assms] by (simp add: Plus_merge)
  show ?thesis using first comm assoc by blast
qed

theorem DecCoins_Plus_canonical_witness:
  "IsValid example_decls [\<lparr>Denom = ''atom'', Amount = 20\<rparr>, \<lparr>Denom = ''btc'', Amount = 10\<rparr>] \<and>
   IsValid example_decls [\<lparr>Denom = ''atom'', Amount = 30\<rparr>, \<lparr>Denom = ''eth'', Amount = 40\<rparr>] \<and>
   IsValid example_decls [\<lparr>Denom = ''btc'', Amount = 5\<rparr>] \<and>
   DecCoins_Plus [\<lparr>Denom = ''atom'', Amount = 20\<rparr>, \<lparr>Denom = ''btc'', Amount = 10\<rparr>]
       [\<lparr>Denom = ''atom'', Amount = 30\<rparr>, \<lparr>Denom = ''eth'', Amount = 40\<rparr>] =
     Inr [\<lparr>Denom = ''atom'', Amount = 50\<rparr>, \<lparr>Denom = ''btc'', Amount = 10\<rparr>, \<lparr>Denom = ''eth'', Amount = 40\<rparr>] \<and>
   DecCoins_Plus [\<lparr>Denom = ''atom'', Amount = 30\<rparr>, \<lparr>Denom = ''eth'', Amount = 40\<rparr>]
       [\<lparr>Denom = ''atom'', Amount = 20\<rparr>, \<lparr>Denom = ''btc'', Amount = 10\<rparr>] =
     Inr [\<lparr>Denom = ''atom'', Amount = 50\<rparr>, \<lparr>Denom = ''btc'', Amount = 10\<rparr>, \<lparr>Denom = ''eth'', Amount = 40\<rparr>] \<and>
   IsValid example_decls
     [\<lparr>Denom = ''atom'', Amount = 50\<rparr>, \<lparr>Denom = ''btc'', Amount = 10\<rparr>, \<lparr>Denom = ''eth'', Amount = 40\<rparr>]"
proof -
  let ?A = "[\<lparr>Denom = ''atom'', Amount = 20\<rparr>, \<lparr>Denom = ''btc'', Amount = 10\<rparr>]"
  let ?B = "[\<lparr>Denom = ''atom'', Amount = 30\<rparr>, \<lparr>Denom = ''eth'', Amount = 40\<rparr>]"
  let ?C = "[\<lparr>Denom = ''btc'', Amount = 5\<rparr>]"
  let ?S = "[\<lparr>Denom = ''atom'', Amount = 50\<rparr>, \<lparr>Denom = ''btc'', Amount = 10\<rparr>, \<lparr>Denom = ''eth'', Amount = 40\<rparr>]"
  have a: "IsValid example_decls ?A"
    by (simp add: Validate_None_iff example_defs)
  have b: "IsValid example_decls ?B"
    by (simp add: Validate_None_iff example_defs)
  have c: "IsValid example_decls ?C"
    by (simp add: Validate_None_iff example_defs)
  have p: "DecCoins_Plus ?A ?B = Inr ?S"
    by (simp add: DecCoins_Plus_def strings_Compare_def Dec_defs DecCoin_Plus_def)
  from DecCoins_Plus_canonical [OF a b c]
  obtain S where S: "DecCoins_Plus ?A ?B = Inr S" "IsValid example_decls S"
    and comm: "DecCoins_Plus ?A ?B = DecCoins_Plus ?B ?A"
    by blast
  have "S = ?S" using S(1) p by simp
  then have v: "IsValid example_decls ?S" using S(2) by simp
  have q: "DecCoins_Plus ?B ?A = Inr ?S" using comm p by simp
  show ?thesis using a b c p q v by blast
qed

lemma mergeCoins_Negative: "mergeCoins coins (DecCoins_Negative coins) = []"
  by (induction coins) (simp_all add: DecCoins_Negative_def Dec_defs)

lemma amountIn_Negative: "amountIn (DecCoins_Negative coins) denom = - amountIn coins denom"
  by (induction coins) (simp_all add: DecCoins_Negative_def Dec_defs)

lemma Denom_Negative: "map Denom (DecCoins_Negative coins) = map Denom coins"
  by (simp add: DecCoins_Negative_def)

text \<open>
  Claim C3. For a canonical set \<open>A\<close>, \<^verbatim>\<open>Minus\<close> of \<open>A\<close> and \<open>A\<close> is the empty set.
  \<^verbatim>\<open>Plus\<close> of \<open>A\<close> and \<^verbatim>\<open>Negative\<close> of \<open>A\<close> is the empty set, which is canonical and in
  which every denom has the amount zero; and for every denom the amounts in \<open>A\<close> and in
  \<^verbatim>\<open>Negative\<close> of \<open>A\<close> add up to zero.
\<close>

theorem DecCoins_Minus_self:
  assumes "IsValid E A"
  shows "DecCoins_Minus A A = Inr [] \<and>
         DecCoins_Plus A (DecCoins_Negative A) = Inr [] \<and>
         IsValid E [] \<and>
         (\<forall>d. Dec_Add (AmountOf A d) (AmountOf (DecCoins_Negative A) d) = ZeroDec) \<and>
         (\<forall>d. AmountOf [] d = ZeroDec)"
proof -
  have s: "sorted_wrt (<) (map Denom A)" using assms by (rule IsValid_sorted)
  then have sn: "sorted_wrt (<) (map Denom (DecCoins_Negative A))" by (simp add: Denom_Negative)
  have "Dec_Add (AmountOf A d) (AmountOf (DecCoins_Negative A) d) = ZeroDec" for d
    by (simp add: AmountOf_amountIn [OF s] AmountOf_amountIn [OF sn] amountIn_Negative Dec_defs)
  moreover have "AmountOf [] d = ZeroDec" for d
    by (simp add: AmountOf.simps [of "[]"])
  ultimately show ?thesis
    by (simp add: DecCoins_Minus_def Plus_merge mergeCoins_Negative)
qed

theorem DecCoins_Minus_self_witness:
  "IsValid example_decls [\<lparr>Denom = ''atom'', Amount = 20\<rparr>, \<lparr>Denom = ''btc'', Amount = 10\<rparr>] \<and>
   DecCoins_Minus [\<lparr>Denom = ''atom'', Amount = 20\<rparr>, \<lparr>Denom = ''btc'', Amount = 10\<rparr>]
     [\<lparr>Denom = ''atom'', Amount = 20\<rparr>, \<lparr>Denom = ''btc'', Amount = 10\<rparr>] = Inr [] \<and>
   DecCoins_Negative [\<lparr>Denom = ''atom'', Amount = 20\<rparr>, \<lparr>Denom = ''btc'', Amount = 10\<rparr>] =
     [\<lparr>Denom = ''atom'', Amount = - 20\<rparr>, \<lparr>Denom = ''btc'', Amount = - 10\<rparr>] \<and>
   DecCoins_Plus [\<lparr>Denom = ''atom'', Amount = 20\<rparr>, \<lparr>Denom = ''btc'', Amount = 10\<rparr>]
     [\<lparr>Denom = ''atom'', Amount = - 20\<rparr>, \<lparr>Denom = ''btc'', Amount = - 10\<rparr>] = Inr []"
proof -
  have a: "IsValid example_decls [\<lparr>Denom = ''atom'', Amount = 20\<rparr>, \<lparr>Denom = ''btc'', Amount = 10\<rparr>]"
    by (simp add: Validate_None_iff example_defs)
  have n: "DecCoins_Negative [\<lparr>Denom = ''atom'', Amount = 20\<rparr>, \<lparr>Denom = ''btc'', Amount = 10\<rparr>] =
     [\<lparr>Denom = ''atom'', Amount = - 20\<rparr>, \<lparr>Denom = ''btc'', Amount = - 10\<rparr>]"
    by (simp add: DecCoins_Negative_def Dec_defs)
  show ?thesis
    using a n DecCoins_Minus_self [OF a] by simp
qed

subsection \<open>Truncation\<close>

lemma precisionReuse_pos: "0 < precisionReuse prec"
  by (simp add: precisionReuse_def)

lemma change_bounds:
  assumes "0 \<le> a"
  shows "0 \<le> a - NewDecFromInt prec (Dec_TruncateInt prec a)"
    and "a - NewDecFromInt prec (Dec_TruncateInt prec a) < NewDecFromInt prec 1"
    and "0 \<le> Dec_TruncateInt prec a"
proof -
  have eq: "a - NewDecFromInt prec (Dec_TruncateInt prec a) = a mod precisionReuse prec"
    using assms by (simp add: NewDecFromInt_def Dec_TruncateInt_def minus_div_mult_eq_mod)
  show "0 \<le> a - NewDecFromInt prec (Dec_TruncateInt prec a)"
    using eq precisionReuse_pos [of prec] by simp
  show "a - NewDecFromInt prec (Dec_TruncateInt prec a) < NewDecFromInt prec 1"
    using eq precisionReuse_pos [of prec] by (simp add: NewDecFromInt_def)
  show "0 \<le> Dec_TruncateInt prec a"
    using assms precisionReuse_pos [of prec] by (simp add: Dec_TruncateInt_def pos_imp_zdiv_nonneg_iff)
qed

lemma DecCoin_TruncateDecimal_valid:
  assumes "DecCoin_Validate E coin False = None"
  shows "DecCoin_TruncateDecimal E coin = Inr (truncatedOf E coin, changeOf E coin)"
proof -
  have a: "0 \<le> Amount coin"
    and s: "validateCoinDenomContainsSpace E (Denom coin) = None"
    and c: "validateCoinDenomCase E (Denom coin) = None"
    using assms by (auto simp: Validate_None_iff)
  have n: "NewCoin E (Denom coin) (Dec_TruncateInt (Precision E) (Amount coin)) = Inr (truncatedOf E coin)"
    using change_bounds(3) [OF a, of "Precision E"] s c by (simp add: NewCoin_def truncatedOf_def)
  have v: "DecCoin_Validate E (changeOf E coin) False = None"
    using change_bounds(1) [OF a, of "Precision E"] s c by (simp add: Validate_None_iff changeOf_def)
  have d: "NewDecCoinFromDec E (Denom coin)
             (Dec_Sub (Amount coin) (NewDecFromInt (Precision E) (Dec_TruncateInt (Precision E) (Amount coin))))
           = Inr (changeOf E coin)"
    using v by (simp add: NewDecCoinFromDec_def changeOf_def Dec_defs)
  show ?thesis
    by (simp add: DecCoin_TruncateDecimal_def Let_def n d)
qed

lemma truncated_nonpos:
  assumes "a < 0"
  shows "Dec_TruncateInt prec a \<le> 0"
    and "Dec_TruncateInt prec a = 0 \<Longrightarrow> a - NewDecFromInt prec (Dec_TruncateInt prec a) < 0"
proof -
  have "0 \<le> (- a) div precisionReuse prec"
    using assms precisionReuse_pos [of prec] by (simp add: pos_imp_zdiv_nonneg_iff)
  then show "Dec_TruncateInt prec a \<le> 0"
    using assms by (simp add: Dec_TruncateInt_def)
  show "a - NewDecFromInt prec (Dec_TruncateInt prec a) < 0" if "Dec_TruncateInt prec a = 0"
    using that assms by (simp add: NewDecFromInt_def)
qed

lemma DecCoin_TruncateDecimal_negative:
  assumes "Amount coin < 0"
  shows "\<exists>p. DecCoin_TruncateDecimal E coin = Inl p"
proof (cases "Dec_TruncateInt (Precision E) (Amount coin) = 0")
  case True
  have "Amount coin - NewDecFromInt (Precision E) (Dec_TruncateInt (Precision E) (Amount coin)) < 0"
    using truncated_nonpos(2) [OF assms True] .
  then have "\<exists>p. NewDecCoinFromDec E (Denom coin)
      (Dec_Sub (Amount coin) (NewDecFromInt (Precision E) (Dec_TruncateInt (Precision E) (Amount coin)))) = Inl p"
    by (simp add: NewDecCoinFromDec_def DecCoin_Validate_def validateDecCoinAmount_def Dec_defs)
  then show ?thesis
    by (auto simp: DecCoin_TruncateDecimal_def Let_def split: sum.splits)
next
  case False
  then have "Dec_TruncateInt (Precision E) (Amount coin) < 0"
    using truncated_nonpos(1) [OF assms, of "Precision E"] by simp
  then show ?thesis
    by (simp add: DecCoin_TruncateDecimal_def Let_def NewCoin_def)
qed

lemma TruncateDecimal_loop_negative:
  "\<exists>c\<in>set coins. Amount c < 0 \<Longrightarrow>
     \<exists>p. DecCoins_TruncateDecimal_loop E out changeSum coins = Inl p"
proof (induction coins arbitrary: out changeSum)
  case Nil
  then show ?case by simp
next
  case (Cons coin rest)
  show ?case
  proof (cases "Amount coin < 0")
    case True
    then obtain p where "DecCoin_TruncateDecimal E coin = Inl p"
      using DecCoin_TruncateDecimal_negative by blast
    then show ?thesis by simp
  next
    case False
    then have "\<exists>c\<in>set rest. Amount c < 0" using Cons.prems by auto
    then show ?thesis
      using Cons.IH by (auto split: sum.splits)
  qed
qed

lemma truncated_small:
  assumes "- precisionReuse prec < a" and "a < 0"
  shows "Dec_TruncateInt prec a = 0"
    and "a - NewDecFromInt prec (Dec_TruncateInt prec a) = a"
proof -
  have "(- a) div precisionReuse prec = 0"
    using assms by (intro div_pos_pos_trivial) simp_all
  then show "Dec_TruncateInt prec a = 0"
    using assms by (simp add: Dec_TruncateInt_def)
  then show "a - NewDecFromInt prec (Dec_TruncateInt prec a) = a"
    by (simp add: NewDecFromInt_def)
qed

lemma truncated_big:
  assumes "a \<le> - precisionReuse prec"
  shows "Dec_TruncateInt prec a < 0"
proof -
  have neg: "a < 0" using assms precisionReuse_pos [of prec] by simp
  have "precisionReuse prec \<le> - a" using assms by simp
  then have "0 < (- a) div precisionReuse prec"
    using precisionReuse_pos [of prec] by (simp add: pos_imp_zdiv_pos_iff)
  then show ?thesis using neg by (simp add: Dec_TruncateInt_def)
qed

lemma change_of_negative:
  assumes "a < 0"
  shows "a - NewDecFromInt prec (Dec_TruncateInt prec a) = - ((- a) mod precisionReuse prec)"
proof -
  have "(- a) mod precisionReuse prec = (- a) - (- a) div precisionReuse prec * precisionReuse prec"
    by (simp add: minus_div_mult_eq_mod)
  then show ?thesis
    using assms by (simp add: NewDecFromInt_def Dec_TruncateInt_def)
qed

lemma change_nonpos:
  assumes "a < 0"
  shows "a - NewDecFromInt prec (Dec_TruncateInt prec a) \<le> 0"
    and "a - NewDecFromInt prec (Dec_TruncateInt prec a) < 0 \<longleftrightarrow> \<not> precisionReuse prec dvd a"
proof -
  have nn: "0 \<le> (- a) mod precisionReuse prec"
    using precisionReuse_pos [of prec] by simp
  show "a - NewDecFromInt prec (Dec_TruncateInt prec a) \<le> 0"
    using nn by (simp add: change_of_negative [OF assms])
  have "(- a) mod precisionReuse prec = 0 \<longleftrightarrow> precisionReuse prec dvd a"
    by (simp add: mod_eq_0_iff_dvd)
  then show "a - NewDecFromInt prec (Dec_TruncateInt prec a) < 0 \<longleftrightarrow> \<not> precisionReuse prec dvd a"
    using nn by (simp add: change_of_negative [OF assms]) linarith
qed

lemma DecCoin_TruncateDecimal_small:
  assumes "- precisionReuse (Precision E) < Amount coin" and "Amount coin < 0"
  shows "\<exists>p. NewDecCoinFromDec E (Denom coin) (Amount coin) = Inl p \<and>
           DecCoin_TruncateDecimal E coin =
             (case NewCoin E (Denom coin) 0 of Inl q \<Rightarrow> Inl q | Inr c \<Rightarrow> Inl p)"
proof -
  obtain p where p: "NewDecCoinFromDec E (Denom coin) (Amount coin) = Inl p"
    using assms(2)
    by (simp add: NewDecCoinFromDec_def DecCoin_Validate_def validateDecCoinAmount_def Dec_defs)
  have "DecCoin_TruncateDecimal E coin =
          (case NewCoin E (Denom coin) 0 of Inl q \<Rightarrow> Inl q | Inr c \<Rightarrow> Inl p)"
    using truncated_small [OF assms] p
    by (simp add: DecCoin_TruncateDecimal_def Let_def Dec_defs split: sum.splits)
  then show ?thesis using p by blast
qed

lemma DecCoin_TruncateDecimal_big:
  assumes "Amount coin \<le> - precisionReuse (Precision E)"
  shows "\<exists>p. NewCoin E (Denom coin) (Dec_TruncateInt (Precision E) (Amount coin)) = Inl p \<and>
           DecCoin_TruncateDecimal E coin = Inl p"
  using truncated_big [OF assms]
  by (simp add: DecCoin_TruncateDecimal_def Let_def NewCoin_def)

text \<open>
  Claim C10, amended. For a coin whose amount is below zero \<^verbatim>\<open>DecCoin.TruncateDecimal\<close>
  panics, and so does \<^verbatim>\<open>DecCoins.TruncateDecimal\<close> on every set that holds such a coin:
  the set's truncation returns only on sets whose amounts are all at least zero. The
  panic has one of two causes. When the amount is above minus one, the integer part is
  zero, the remainder is the amount itself, and \<^verbatim>\<open>NewDecCoinFromDec\<close> refuses it: this is
  the panic, unless \<^verbatim>\<open>NewCoin\<close> has refused the denom before. When the amount is minus one
  or less, the integer part is below zero and \<^verbatim>\<open>NewCoin\<close>, which is evaluated first,
  refuses it: the panic is \<^verbatim>\<open>NewCoin\<close>'s. The remainder of an amount below zero is never
  above zero, and it is below zero exactly when the amount is not whole.
\<close>

theorem TruncateDecimal_negative_panics:
  "(Amount coin < 0 \<longrightarrow> (\<exists>p. DecCoin_TruncateDecimal E coin = Inl p)) \<and>
   ((\<exists>c\<in>set coins. Amount c < 0) \<longrightarrow> (\<exists>p. DecCoins_TruncateDecimal E coins = Inl p)) \<and>
   ((\<exists>r. DecCoins_TruncateDecimal E coins = Inr r) \<longrightarrow> (\<forall>c\<in>set coins. 0 \<le> Amount c)) \<and>
   (- precisionReuse (Precision E) < Amount coin \<and> Amount coin < 0 \<longrightarrow>
      Dec_TruncateInt (Precision E) (Amount coin) = 0 \<and>
      Dec_Sub (Amount coin)
        (NewDecFromInt (Precision E) (Dec_TruncateInt (Precision E) (Amount coin))) = Amount coin \<and>
      (\<exists>p. NewDecCoinFromDec E (Denom coin) (Amount coin) = Inl p \<and>
           DecCoin_TruncateDecimal E coin =
             (case NewCoin E (Denom coin) 0 of Inl q \<Rightarrow> Inl q | Inr c \<Rightarrow> Inl p))) \<and>
   (Amount coin \<le> - precisionReuse (Precision E) \<longrightarrow>
      Dec_TruncateInt (Precision E) (Amount coin) < 0 \<and>
      (\<exists>p. NewCoin E (Denom coin) (Dec_TruncateInt (Precision E) (Amount coin)) = Inl p \<and>
           DecCoin_TruncateDecimal E coin = Inl p)) \<and>
   (Amount coin < 0 \<longrightarrow>
      Dec_Sub (Amount coin)
        (NewDecFromInt (Precision E) (Dec_TruncateInt (Precision E) (Amount coin))) \<le> 0 \<and>
      (Dec_Sub (Amount coin)
         (NewDecFromInt (Precision E) (Dec_TruncateInt (Precision E) (Amount coin))) < 0 \<longleftrightarrow>
       \<not> precisionReuse (Precision E) dvd Amount coin))"
proof -
  have set_panics: "\<exists>p. DecCoins_TruncateDecimal E coins = Inl p" if "\<exists>c\<in>set coins. Amount c < 0"
    using that by (simp add: DecCoins_TruncateDecimal_def TruncateDecimal_loop_negative)
  have total: "\<forall>c\<in>set coins. 0 \<le> Amount c" if "\<exists>r. DecCoins_TruncateDecimal E coins = Inr r"
  proof (rule ccontr)
    assume "\<not> (\<forall>c\<in>set coins. 0 \<le> Amount c)"
    then have "\<exists>c\<in>set coins. Amount c < 0" by (simp add: not_le)
    then show False using set_panics that by auto
  qed
  have small: "Dec_TruncateInt (Precision E) (Amount coin) = 0 \<and>
      Dec_Sub (Amount coin)
        (NewDecFromInt (Precision E) (Dec_TruncateInt (Precision E) (Amount coin))) = Amount coin \<and>
      (\<exists>p. NewDecCoinFromDec E (Denom coin) (Amount coin) = Inl p \<and>
           DecCoin_TruncateDecimal E coin =
             (case NewCoin E (Denom coin) 0 of Inl q \<Rightarrow> Inl q | Inr c \<Rightarrow> Inl p))"
    if h: "- precisionReuse (Precision E) < Amount coin \<and> Amount coin < 0"
  proof -
    have a: "- precisionReuse (Precision E) < Amount coin" and b: "Amount coin < 0" using h by auto
    show ?thesis
      using truncated_small [OF a b] DecCoin_TruncateDecimal_small [OF a b]
      by (simp add: Dec_defs)
  qed
  have big: "Dec_TruncateInt (Precision E) (Amount coin) < 0 \<and>
      (\<exists>p. NewCoin E (Denom coin) (Dec_TruncateInt (Precision E) (Amount coin)) = Inl p \<and>
           DecCoin_TruncateDecimal E coin = Inl p)"
    if "Amount coin \<le> - precisionReuse (Precision E)"
    using truncated_big [OF that] DecCoin_TruncateDecimal_big [OF that] by blast
  have rem: "Dec_Sub (Amount coin)
        (NewDecFromInt (Precision E) (Dec_TruncateInt (Precision E) (Amount coin))) \<le> 0 \<and>
      (Dec_Sub (Amount coin)
         (NewDecFromInt (Precision E) (Dec_TruncateInt (Precision E) (Amount coin))) < 0 \<longleftrightarrow>
       \<not> precisionReuse (Precision E) dvd Amount coin)"
    if "Amount coin < 0"
    using change_nonpos [OF that, of "Precision E"] by (simp add: Dec_defs)
  show ?thesis
    using set_panics total small big rem DecCoin_TruncateDecimal_negative by blast
qed

theorem TruncateDecimal_negative_panics_witness:
  "DecCoin_TruncateDecimal example_decls \<lparr>Denom = ''atom'', Amount = - 5\<rparr> =
     Inl (panic_error (fmt_Errorf ''%s: %s'' [ArgError (errors_New ''negative coin amount''), ArgDec (- 5)])) \<and>
   NewDecCoinFromDec example_decls ''atom'' (- 5) =
     Inl (panic_error (fmt_Errorf ''%s: %s'' [ArgError (errors_New ''negative coin amount''), ArgDec (- 5)])) \<and>
   DecCoin_TruncateDecimal example_decls \<lparr>Denom = ''atom'', Amount = - 15\<rparr> =
     Inl (panic_error (errors_New ''negative coin amount'')) \<and>
   NewCoin example_decls ''atom'' (- 1) = Inl (panic_error (errors_New ''negative coin amount'')) \<and>
   DecCoins_TruncateDecimal example_decls
       [\<lparr>Denom = ''atom'', Amount = 37\<rparr>, \<lparr>Denom = ''btc'', Amount = - 5\<rparr>] =
     Inl (panic_error (fmt_Errorf ''%s: %s'' [ArgError (errors_New ''negative coin amount''), ArgDec (- 5)])) \<and>
   DecCoins_TruncateDecimal example_decls [\<lparr>Denom = ''atom'', Amount = 37\<rparr>] =
     Inr ([\<lparr>Coin.Denom = ''atom'', Coin.Amount = 3\<rparr>], [\<lparr>Denom = ''atom'', Amount = 7\<rparr>])"
  using
    TruncateDecimal_negative_panics [of "\<lparr>Denom = ''atom'', Amount = - 5\<rparr>" example_decls
      "[\<lparr>Denom = ''atom'', Amount = 37\<rparr>, \<lparr>Denom = ''btc'', Amount = - 5\<rparr>]"]
    TruncateDecimal_negative_panics [of "\<lparr>Denom = ''atom'', Amount = - 15\<rparr>" example_decls
      "[\<lparr>Denom = ''atom'', Amount = 37\<rparr>]"]
  by (simp add: DecCoins_TruncateDecimal_def DecCoin_TruncateDecimal_def NewCoin_def
        NewDecCoinFromDec_def DecCoin_Validate_def validateDecCoinAmount_def Dec_TruncateInt_def
        NewDecFromInt_def precisionReuse_def Dec_defs DecCoins_Plus_def example_defs)

text \<open>
  Claim C10 as stated gives one cause for every amount below zero: the remainder is below
  zero and \<^verbatim>\<open>NewDecCoinFromDec\<close> refuses it. At the amount minus two (\<open>- 20\<close> at one decimal
  digit) the integer part is minus two and the remainder is zero, which
  \<^verbatim>\<open>NewDecCoinFromDec\<close> accepts; the panic of the truncation is the one of \<^verbatim>\<open>NewCoin\<close> on
  the integer part.
\<close>

theorem TruncateDecimal_negative_panics_counterexample:
  "Dec_TruncateInt (Precision example_decls) (- 20) = - 2 \<and>
   Dec_Sub (- 20) (NewDecFromInt (Precision example_decls) (- 2)) = 0 \<and>
   NewDecCoinFromDec example_decls ''atom'' 0 = Inr \<lparr>Denom = ''atom'', Amount = 0\<rparr> \<and>
   NewCoin example_decls ''atom'' (- 2) = Inl (panic_error (errors_New ''negative coin amount'')) \<and>
   DecCoin_TruncateDecimal example_decls \<lparr>Denom = ''atom'', Amount = - 20\<rparr> =
     Inl (panic_error (errors_New ''negative coin amount''))"
  by (simp add: DecCoin_TruncateDecimal_def NewCoin_def NewDecCoinFromDec_def DecCoin_Validate_def
        validateDecCoinAmount_def Dec_TruncateInt_def NewDecFromInt_def precisionReuse_def
        Dec_defs example_defs)

lemma mergeCoins_snoc:
  "\<forall>x\<in>set coins. Denom x < Denom c \<Longrightarrow> mergeCoins coins [c] = coins @ [c]"
  by (induction coins) auto

lemma TruncateDecimal_loop_valid:
  "sorted_wrt (<) (map Denom coins) \<Longrightarrow>
   \<forall>c\<in>set coins. DecCoin_Validate E c False = None \<Longrightarrow>
   \<forall>x\<in>set changeSum. \<forall>c\<in>set coins. Denom x < Denom c \<Longrightarrow>
   DecCoins_TruncateDecimal_loop E out changeSum coins =
     Inr (out @ map (truncatedOf E) coins, changeSum @ map (changeOf E) coins)"
proof (induction coins arbitrary: out changeSum)
  case Nil
  then show ?case by simp
next
  case (Cons coin rest)
  have t: "DecCoin_TruncateDecimal E coin = Inr (truncatedOf E coin, changeOf E coin)"
    using Cons.prems(2) by (simp add: DecCoin_TruncateDecimal_valid)
  have "\<forall>x\<in>set changeSum. Denom x < Denom (changeOf E coin)"
    using Cons.prems(3) by (simp add: changeOf_def)
  then have p: "DecCoins_Plus changeSum [changeOf E coin] = Inr (changeSum @ [changeOf E coin])"
    by (simp add: Plus_merge mergeCoins_snoc)
  have below: "\<forall>x\<in>set (changeSum @ [changeOf E coin]). \<forall>c\<in>set rest. Denom x < Denom c"
    using Cons.prems(1,3) by (auto simp: changeOf_def)
  have "DecCoins_TruncateDecimal_loop E (out @ [truncatedOf E coin]) (changeSum @ [changeOf E coin]) rest =
     Inr ((out @ [truncatedOf E coin]) @ map (truncatedOf E) rest,
          (changeSum @ [changeOf E coin]) @ map (changeOf E) rest)"
    using Cons.prems(1,2) below by (intro Cons.IH) auto
  then show ?case by (simp add: t p)
qed

lemma NewDecCoins_truncated:
  "\<forall>c\<in>set coins. DecCoin_Validate E c False = None \<Longrightarrow>
     NewDecCoins E (map (truncatedOf E) coins) = Inr (map (integerPartOf E) coins)"
proof (induction coins)
  case Nil
  then show ?case by simp
next
  case (Cons coin rest)
  have a: "0 \<le> Amount coin"
    and s: "validateCoinDenomContainsSpace E (Denom coin) = None"
    and c: "validateCoinDenomCase E (Denom coin) = None"
    using Cons.prems by (auto simp: Validate_None_iff)
  have "0 \<le> NewDecFromInt (Precision E) (Dec_TruncateInt (Precision E) (Amount coin))"
    using change_bounds(3) [OF a, of "Precision E"] precisionReuse_pos [of "Precision E"]
    by (simp add: NewDecFromInt_def)
  then have "DecCoin_Validate E (integerPartOf E coin) False = None"
    using s c by (simp add: Validate_None_iff integerPartOf_def)
  then have "NewDecCoinFromCoin E (truncatedOf E coin) = Inr (integerPartOf E coin)"
    by (simp add: NewDecCoinFromCoin_def truncatedOf_def integerPartOf_def)
  then show ?case using Cons by simp
qed

lemma amountIn_parts:
  "amountIn (map (integerPartOf E) coins) denom + amountIn (map (changeOf E) coins) denom =
     amountIn coins denom"
  by (induction coins) (simp_all add: integerPartOf_def changeOf_def)

lemma Denom_parts:
  "map Denom (map (integerPartOf E) coins) = map Denom coins"
  "map Denom (map (changeOf E) coins) = map Denom coins"
  by (simp_all add: integerPartOf_def changeOf_def)

text \<open>
  Claim C1, amended. For a set \<open>D\<close> whose denoms strictly increase and whose entries all
  pass \<^verbatim>\<open>Validate(false)\<close> (an amount of at least zero, a denom that passes the denom
  checks), as every canonical set does, \<^verbatim>\<open>DecCoins.TruncateDecimal\<close> returns a pair
  \<open>(I, R)\<close> such that for every denom the integer part \<open>I\<close>, read as decimal coins, and the
  remainder \<open>R\<close> add up to the amount in \<open>D\<close> exactly, and every entry of \<open>R\<close> is at least
  zero and below one.
\<close>

theorem TruncateDecimal_conservation:
  assumes "sorted_wrt (<) (map Denom D)"
      and "\<forall>c\<in>set D. DecCoin_Validate E c False = None"
  shows "\<exists>I R Idec.
           DecCoins_TruncateDecimal E D = Inr (I, R) \<and>
           NewDecCoins E I = Inr Idec \<and>
           (\<forall>d. Dec_Add (AmountOf Idec d) (AmountOf R d) = AmountOf D d) \<and>
           (\<forall>c\<in>set R. Dec_LTE ZeroDec (Amount c) \<and> Dec_LT (Amount c) (NewDecFromInt (Precision E) 1))"
proof -
  have run: "DecCoins_TruncateDecimal E D = Inr (map (truncatedOf E) D, map (changeOf E) D)"
    using assms by (simp add: DecCoins_TruncateDecimal_def TruncateDecimal_loop_valid)
  have dec: "NewDecCoins E (map (truncatedOf E) D) = Inr (map (integerPartOf E) D)"
    using assms(2) by (rule NewDecCoins_truncated)
  have sI: "sorted_wrt (<) (map Denom (map (integerPartOf E) D))"
    and sR: "sorted_wrt (<) (map Denom (map (changeOf E) D))"
    using assms(1) by (simp_all only: Denom_parts)
  have sum: "Dec_Add (AmountOf (map (integerPartOf E) D) d) (AmountOf (map (changeOf E) D) d) = AmountOf D d" for d
    by (simp add: AmountOf_amountIn [OF sI] AmountOf_amountIn [OF sR] AmountOf_amountIn [OF assms(1)]
          amountIn_parts Dec_defs)
  have rng: "Dec_LTE ZeroDec (Amount c) \<and> Dec_LT (Amount c) (NewDecFromInt (Precision E) 1)"
    if c: "c \<in> set (map (changeOf E) D)" for c
  proof -
    obtain x where x: "x \<in> set D" "c = changeOf E x" using c by auto
    then have "0 \<le> Amount x" using assms(2) by (auto simp: Validate_None_iff)
    then show ?thesis
      using change_bounds(1,2) [of "Amount x" "Precision E"] x(2) by (simp add: changeOf_def Dec_defs)
  qed
  show ?thesis using run dec sum rng by blast
qed

theorem TruncateDecimal_conservation_witness:
  "sorted_wrt (<) (map Denom [\<lparr>Denom = ''atom'', Amount = 37\<rparr>, \<lparr>Denom = ''btc'', Amount = 20\<rparr>]) \<and>
   DecCoin_Validate example_decls \<lparr>Denom = ''atom'', Amount = 37\<rparr> False = None \<and>
   DecCoin_Validate example_decls \<lparr>Denom = ''btc'', Amount = 20\<rparr> False = None \<and>
   DecCoins_TruncateDecimal example_decls [\<lparr>Denom = ''atom'', Amount = 37\<rparr>, \<lparr>Denom = ''btc'', Amount = 20\<rparr>] =
     Inr ([\<lparr>Coin.Denom = ''atom'', Coin.Amount = 3\<rparr>, \<lparr>Coin.Denom = ''btc'', Coin.Amount = 2\<rparr>],
          [\<lparr>Denom = ''atom'', Amount = 7\<rparr>, \<lparr>Denom = ''btc'', Amount = 0\<rparr>]) \<and>
   NewDecCoins example_decls [\<lparr>Coin.Denom = ''atom'', Coin.Amount = 3\<rparr>, \<lparr>Coin.Denom = ''btc'', Coin.Amount = 2\<rparr>] =
     Inr [\<lparr>Denom = ''atom'', Amount = 30\<rparr>, \<lparr>Denom = ''btc'', Amount = 20\<rparr>] \<and>
   Dec_Add (AmountOf [\<lparr>Denom = ''atom'', Amount = 30\<rparr>, \<lparr>Denom = ''btc'', Amount = 20\<rparr>] ''atom'')
           (AmountOf [\<lparr>Denom = ''atom'', Amount = 7\<rparr>, \<lparr>Denom = ''btc'', Amount = 0\<rparr>] ''atom'') =
     AmountOf [\<lparr>Denom = ''atom'', Amount = 37\<rparr>, \<lparr>Denom = ''btc'', Amount = 20\<rparr>] ''atom''"
proof -
  let ?D = "[\<lparr>Denom = ''atom'', Amount = 37\<rparr>, \<lparr>Denom = ''btc'', Amount = 20\<rparr>]"
  let ?I = "[\<lparr>Coin.Denom = ''atom'', Coin.Amount = 3\<rparr>, \<lparr>Coin.Denom = ''btc'', Coin.Amount = 2\<rparr>]"
  let ?R = "[\<lparr>Denom = ''atom'', Amount = 7\<rparr>, \<lparr>Denom = ''btc'', Amount = 0\<rparr>]"
  let ?Idec = "[\<lparr>Denom = ''atom'', Amount = 30\<rparr>, \<lparr>Denom = ''btc'', Amount = 20\<rparr>]"
  have s: "sorted_wrt (<) (map Denom ?D)" by simp
  have v1: "DecCoin_Validate example_decls \<lparr>Denom = ''atom'', Amount = 37\<rparr> False = None"
    and v2: "DecCoin_Validate example_decls \<lparr>Denom = ''btc'', Amount = 20\<rparr> False = None"
    by (simp_all add: Validate_None_iff example_defs)
  have v: "\<forall>c\<in>set ?D. DecCoin_Validate example_decls c False = None"
    using v1 v2 by simp
  have run: "DecCoins_TruncateDecimal example_decls ?D = Inr (?I, ?R)"
    by (simp add: DecCoins_TruncateDecimal_def DecCoin_TruncateDecimal_def NewCoin_def
        NewDecCoinFromDec_def DecCoin_Validate_def validateDecCoinAmount_def Dec_TruncateInt_def
        NewDecFromInt_def precisionReuse_def Dec_defs DecCoins_Plus_def strings_Compare_def example_defs)
  have dec: "NewDecCoins example_decls ?I = Inr ?Idec"
    by (simp add: NewDecCoinFromCoin_def DecCoin_Validate_def validateDecCoinAmount_def
        NewDecFromInt_def precisionReuse_def Dec_defs example_defs)
  from TruncateDecimal_conservation [OF s v]
  obtain I R Idec where *: "DecCoins_TruncateDecimal example_decls ?D = Inr (I, R)"
      "NewDecCoins example_decls I = Inr Idec"
      "\<forall>d. Dec_Add (AmountOf Idec d) (AmountOf R d) = AmountOf ?D d"
    by blast
  have "I = ?I" "R = ?R" using *(1) run by simp_all
  then have "Idec = ?Idec" using *(2) dec by simp
  then have "Dec_Add (AmountOf ?Idec ''atom'') (AmountOf ?R ''atom'') = AmountOf ?D ''atom''"
    using *(3) \<open>R = ?R\<close> by blast
  then show ?thesis using s v1 v2 run dec by blast
qed

text \<open>
  Claim C1 as stated, for any set, does not hold. On a set with an amount below zero the
  truncation panics and returns no pair. On a set in which a denom occurs twice the
  remainders of that denom are added, here to an entry of \<open>R\<close> that is one (10 at one
  decimal digit), not below one. On a set that is not sorted the remainder is sorted but
  the set and the integer part are not, and the binary search of \<^verbatim>\<open>AmountOf\<close> does not
  find \<open>btc\<close> in them: the amounts it returns do not add up.
\<close>

theorem TruncateDecimal_conservation_counterexample:
  "DecCoins_TruncateDecimal example_decls [\<lparr>Denom = ''atom'', Amount = - 5\<rparr>] =
     Inl (panic_error (fmt_Errorf ''%s: %s'' [ArgError (errors_New ''negative coin amount''), ArgDec (- 5)])) \<and>
   DecCoins_TruncateDecimal example_decls
       [\<lparr>Denom = ''atom'', Amount = 5\<rparr>, \<lparr>Denom = ''atom'', Amount = 5\<rparr>] =
     Inr ([\<lparr>Coin.Denom = ''atom'', Coin.Amount = 0\<rparr>, \<lparr>Coin.Denom = ''atom'', Coin.Amount = 0\<rparr>],
          [\<lparr>Denom = ''atom'', Amount = 10\<rparr>]) \<and>
   \<not> Dec_LT 10 (NewDecFromInt (Precision example_decls) 1) \<and>
   DecCoins_TruncateDecimal example_decls
       [\<lparr>Denom = ''btc'', Amount = 5\<rparr>, \<lparr>Denom = ''atom'', Amount = 5\<rparr>] =
     Inr ([\<lparr>Coin.Denom = ''btc'', Coin.Amount = 0\<rparr>, \<lparr>Coin.Denom = ''atom'', Coin.Amount = 0\<rparr>],
          [\<lparr>Denom = ''atom'', Amount = 5\<rparr>, \<lparr>Denom = ''btc'', Amount = 5\<rparr>]) \<and>
   NewDecCoins example_decls
       [\<lparr>Coin.Denom = ''btc'', Coin.Amount = 0\<rparr>, \<lparr>Coin.Denom = ''atom'', Coin.Amount = 0\<rparr>] =
     Inr [\<lparr>Denom = ''btc'', Amount = 0\<rparr>, \<lparr>Denom = ''atom'', Amount = 0\<rparr>] \<and>
   Dec_Add (AmountOf [\<lparr>Denom = ''btc'', Amount = 0\<rparr>, \<lparr>Denom = ''atom'', Amount = 0\<rparr>] ''btc'')
           (AmountOf [\<lparr>Denom = ''atom'', Amount = 5\<rparr>, \<lparr>Denom = ''btc'', Amount = 5\<rparr>] ''btc'') \<noteq>
     AmountOf [\<lparr>Denom = ''btc'', Amount = 5\<rparr>, \<lparr>Denom = ''atom'', Amount = 5\<rparr>] ''btc''"
proof -
  have run: "DecCoins_TruncateDecimal example_decls [\<lparr>Denom = ''atom'', Amount = - 5\<rparr>] =
     Inl (panic_error (fmt_Errorf ''%s: %s'' [ArgError (errors_New ''negative coin amount''), ArgDec (- 5)]))"
   "DecCoins_TruncateDecimal example_decls
       [\<lparr>Denom = ''atom'', Amount = 5\<rparr>, \<lparr>Denom = ''atom'', Amount = 5\<rparr>] =
     Inr ([\<lparr>Coin.Denom = ''atom'', Coin.Amount = 0\<rparr>, \<lparr>Coin.Denom = ''atom'', Coin.Amount = 0\<rparr>],
          [\<lparr>Denom = ''atom'', Amount = 10\<rparr>])"
   "DecCoins_TruncateDecimal example_decls
       [\<lparr>Denom = ''btc'', Amount = 5\<rparr>, \<lparr>Denom = ''atom'', Amount = 5\<rparr>] =
     Inr ([\<lparr>Coin.Denom = ''btc'', Coin.Amount = 0\<rparr>, \<lparr>Coin.Denom = ''atom'', Coin.Amount = 0\<rparr>],
          [\<lparr>Denom = ''atom'', Amount = 5\<rparr>, \<lparr>Denom = ''btc'', Amount = 5\<rparr>])"
    by (simp_all add: DecCoins_TruncateDecimal_def DecCoin_TruncateDecimal_def NewCoin_def
        NewDecCoinFromDec_def DecCoin_Validate_def validateDecCoinAmount_def Dec_TruncateInt_def
        NewDecFromInt_def precisionReuse_def Dec_defs DecCoins_Plus_def strings_Compare_def
        DecCoin_Plus_def example_defs)
  have one: "\<not> Dec_LT 10 (NewDecFromInt (Precision example_decls) 1)"
    by (simp add: NewDecFromInt_def precisionReuse_def Dec_defs example_defs)
  have dec: "NewDecCoins example_decls
       [\<lparr>Coin.Denom = ''btc'', Coin.Amount = 0\<rparr>, \<lparr>Coin.Denom = ''atom'', Coin.Amount = 0\<rparr>] =
     Inr [\<lparr>Denom = ''btc'', Amount = 0\<rparr>, \<lparr>Denom = ''atom'', Amount = 0\<rparr>]"
    by (simp add: NewDecCoinFromCoin_def DecCoin_Validate_def validateDecCoinAmount_def
        NewDecFromInt_def precisionReuse_def Dec_defs example_defs)
  have amounts: "Dec_Add (AmountOf [\<lparr>Denom = ''btc'', Amount = 0\<rparr>, \<lparr>Denom = ''atom'', Amount = 0\<rparr>] ''btc'')
           (AmountOf [\<lparr>Denom = ''atom'', Amount = 5\<rparr>, \<lparr>Denom = ''btc'', Amount = 5\<rparr>] ''btc'') \<noteq>
     AmountOf [\<lparr>Denom = ''btc'', Amount = 5\<rparr>, \<lparr>Denom = ''atom'', Amount = 5\<rparr>] ''btc''"
    by (simp add: AmountOf.simps Dec_defs)
  show ?thesis using run one dec amounts by blast
qed

subsection \<open>Parsing\<close>

lemma spaceRunes_prefix_free:
  "list_all (\<lambda>a. list_all (\<lambda>b. take (length a) b = a \<longrightarrow> a = b) spaceRunes) spaceRunes"
  by code_simp

lemma spaceRunes_nonempty: "list_all (\<lambda>a. a \<noteq> []) spaceRunes"
  by code_simp

lemma leadingSpace_rune:
  assumes "enc \<in> set spaceRunes"
  shows "leadingSpace (enc @ rest) = length enc"
proof -
  let ?P = "\<lambda>e. take (length e) (enc @ rest) = e"
  have "?P enc" by simp
  then have "find ?P spaceRunes \<noteq> None"
    using assms by (auto simp: find_None_iff)
  then obtain e where e: "find ?P spaceRunes = Some e" by auto
  then have mem: "e \<in> set spaceRunes" and pe: "?P e"
    by (auto simp: find_Some_iff)
  have free: "take (length a) b = a \<Longrightarrow> a = b" if "a \<in> set spaceRunes" "b \<in> set spaceRunes" for a b
    using spaceRunes_prefix_free that by (auto simp: list_all_iff)
  have "e = enc"
  proof (cases "length e \<le> length enc")
    case True
    have "take (length e) enc = take (length e) (take (length enc) (enc @ rest))" by simp
    also have "\<dots> = take (length e) (enc @ rest)" using True by (simp only: take_take min_absorb1)
    also have "\<dots> = e" using pe .
    finally show ?thesis using free [OF mem assms] by simp
  next
    case False
    then have le: "length enc \<le> length e" by simp
    have "take (length enc) e = take (length enc) (take (length e) (enc @ rest))" using pe by simp
    also have "\<dots> = take (length enc) (enc @ rest)" using le by (simp only: take_take min_absorb1)
    also have "\<dots> = enc" by simp
    finally show ?thesis using free [OF assms mem] by simp
  qed
  then show ?thesis using e by (simp add: leadingSpace_def)
qed

lemma TrimLeftSpace_runes:
  "set ws \<subseteq> set spaceRunes \<Longrightarrow>
     strings_TrimLeftSpace (concat ws @ rest) = strings_TrimLeftSpace rest"
proof (induction ws)
  case Nil
  then show ?case by simp
next
  case (Cons enc ws)
  have w: "leadingSpace (enc @ concat ws @ rest) = length enc"
    using Cons.prems by (simp add: leadingSpace_rune)
  have "enc \<noteq> []" using Cons.prems spaceRunes_nonempty by (auto simp: list_all_iff)
  then have "strings_TrimLeftSpace (enc @ concat ws @ rest) = strings_TrimLeftSpace (concat ws @ rest)"
    using w by (subst strings_TrimLeftSpace.simps) simp
  then show ?case using Cons by simp
qed

lemma TrimSpace_runes:
  assumes "set ws \<subseteq> set spaceRunes"
  shows "strings_TrimSpace (concat ws) = []"
proof -
  have "strings_TrimLeftSpace (concat ws @ []) = strings_TrimLeftSpace []"
    using assms by (rule TrimLeftSpace_runes)
  moreover have "strings_TrimLeftSpace [] = []"
    by (subst strings_TrimLeftSpace.simps) (simp add: leadingSpace_def spaceRunes_def)
  moreover have "strings_TrimRightSpace [] = []"
    by (subst strings_TrimRightSpace.simps) (simp add: trailingSpace_def spaceRunes_def)
  ultimately show ?thesis by (simp add: strings_TrimSpace_def)
qed

lemma ParseDecCoins_loop_fails:
  "\<exists>tok\<in>set coinStrs. \<exists>err. ParseDecCoin E tok = Inl err \<Longrightarrow>
     \<exists>err. ParseDecCoins_loop E coins coinStrs = Inl err"
proof (induction coinStrs arbitrary: coins)
  case Nil
  then show ?case by simp
next
  case (Cons coinStr rest)
  show ?case
  proof (cases "ParseDecCoin E coinStr")
    case (Inl err)
    then show ?thesis by simp
  next
    case (Inr coin)
    then have "\<exists>tok\<in>set rest. \<exists>err. ParseDecCoin E tok = Inl err"
      using Cons.prems by auto
    then show ?thesis using Cons.IH Inr by simp
  qed
qed

lemma ParseDecCoins_results:
  "ParseDecCoins E s = (coins, err) \<Longrightarrow>
     (err \<noteq> None \<longrightarrow> coins = []) \<and>
     (err = None \<longrightarrow> IsValid E coins \<and> sorted_wrt (<) (map Denom coins))"
  by (auto simp: ParseDecCoins_def Let_def IsValid_iff split: if_splits sum.splits)

text \<open>
  Claim C7. \<^verbatim>\<open>ParseDecCoins\<close> on a string that is empty or holds white space only (a row
  of white space characters of Unicode, in UTF-8) returns the empty set and no error. If
  one of the pieces between commas and semicolons fails in \<^verbatim>\<open>ParseDecCoin\<close> (it does not
  parse, or does not validate), the call returns an error; whenever it returns an error
  the set it returns is \<^verbatim>\<open>nil\<close>, not a part of the coins. When it returns no error, the
  set is sorted by denom and \<^verbatim>\<open>IsValid\<close> accepts it.
\<close>

theorem ParseDecCoins_all_or_nothing:
  "(set ws \<subseteq> set spaceRunes \<longrightarrow> ParseDecCoins E (concat ws) = ([], None)) \<and>
   (strings_TrimSpace s \<noteq> [] \<and>
      (\<exists>tok\<in>set (splitRe_Split (strings_TrimSpace s)). \<exists>err. ParseDecCoin E tok = Inl err) \<longrightarrow>
      (\<exists>err. ParseDecCoins E s = ([], Some err))) \<and>
   (snd (ParseDecCoins E s) \<noteq> None \<longrightarrow> fst (ParseDecCoins E s) = []) \<and>
   (snd (ParseDecCoins E s) = None \<longrightarrow>
      IsValid E (fst (ParseDecCoins E s)) \<and> sorted (map Denom (fst (ParseDecCoins E s))))"
proof -
  have empty: "ParseDecCoins E (concat ws) = ([], None)" if "set ws \<subseteq> set spaceRunes"
    using TrimSpace_runes [OF that] by (simp add: ParseDecCoins_def)
  have fails: "\<exists>err. ParseDecCoins E s = ([], Some err)"
    if h: "strings_TrimSpace s \<noteq> [] \<and>
      (\<exists>tok\<in>set (splitRe_Split (strings_TrimSpace s)). \<exists>err. ParseDecCoin E tok = Inl err)"
  proof -
    obtain err where "ParseDecCoins_loop E [] (splitRe_Split (strings_TrimSpace s)) = Inl err"
      using ParseDecCoins_loop_fails h by blast
    then show ?thesis using h by (simp add: ParseDecCoins_def)
  qed
  have res: "(snd (ParseDecCoins E s) \<noteq> None \<longrightarrow> fst (ParseDecCoins E s) = []) \<and>
     (snd (ParseDecCoins E s) = None \<longrightarrow>
        IsValid E (fst (ParseDecCoins E s)) \<and> sorted_wrt (<) (map Denom (fst (ParseDecCoins E s))))"
    using ParseDecCoins_results [of E s "fst (ParseDecCoins E s)" "snd (ParseDecCoins E s)"] by simp
  show ?thesis
    using empty fails res strict_sorted_imp_sorted by blast
qed

theorem ParseDecCoins_all_or_nothing_witness:
  "ParseDecCoins example_decls '' '' = ([], None) \<and>
   ParseDecCoins example_decls [CHR 0xC2, CHR 0xA0, CHR 0x09, CHR 0xE3, CHR 0x80, CHR 0x80] = ([], None) \<and>
   ParseDecCoins example_decls ''2btc, 15atom '' =
     ([\<lparr>Denom = ''atom'', Amount = 150\<rparr>, \<lparr>Denom = ''btc'', Amount = 20\<rparr>], None) \<and>
   IsValid example_decls [\<lparr>Denom = ''atom'', Amount = 150\<rparr>, \<lparr>Denom = ''btc'', Amount = 20\<rparr>] \<and>
   splitRe_Split (strings_TrimSpace ''2btc;atom'') = [''2btc'', ''atom''] \<and>
   ParseDecCoin example_decls ''atom'' =
     Inl (fmt_Errorf ''failed to parse decimal coin: %s''
       [ArgError (fmt_Errorf ''invalid decimal coin expression %q'' [ArgString ''atom''])]) \<and>
   ParseDecCoins example_decls ''2btc;atom'' =
     ([], Some (fmt_Errorf ''failed to parse decimal coin: %s''
       [ArgError (fmt_Errorf ''invalid decimal coin expression %q'' [ArgString ''atom''])]))"
proof -
  have e: "ParseDecCoins example_decls '' '' = ([], None)"
    using ParseDecCoins_all_or_nothing [of "['' '']" example_decls] by (simp add: spaceRunes_def)
  have u: "ParseDecCoins example_decls [CHR 0xC2, CHR 0xA0, CHR 0x09, CHR 0xE3, CHR 0x80, CHR 0x80] =
      ([], None)"
    using ParseDecCoins_all_or_nothing
      [of "[[CHR 0xC2, CHR 0xA0], [CHR 0x09], [CHR 0xE3, CHR 0x80, CHR 0x80]]" example_decls]
    by (simp add: spaceRunes_def)
  have t1: "strings_TrimSpace ''2btc, 15atom '' = ''2btc, 15atom''"
    and t2: "strings_TrimSpace ''2btc'' = ''2btc''"
    and t3: "strings_TrimSpace '' 15atom'' = ''15atom''"
    and t4: "strings_TrimSpace ''2btc;atom'' = ''2btc;atom''"
    and t5: "strings_TrimSpace ''atom'' = ''atom''"
    by (simp_all add: TrimSpace_defs)
  have ok: "ParseDecCoins example_decls ''2btc, 15atom '' =
     ([\<lparr>Denom = ''atom'', Amount = 150\<rparr>, \<lparr>Denom = ''btc'', Amount = 20\<rparr>], None)"
    by (simp add: ParseDecCoins_def ParseDecCoin_def parseDecCoinString_def t1 t2 t3
          DecCoins_Sort_def DecCoin_Validate_def validateDecCoinAmount_def Dec_defs example_defs)
  have v: "IsValid example_decls [\<lparr>Denom = ''atom'', Amount = 150\<rparr>, \<lparr>Denom = ''btc'', Amount = 20\<rparr>]"
    using ParseDecCoins_all_or_nothing [of _ example_decls "''2btc, 15atom ''"]
    unfolding ok fst_conv snd_conv by blast
  have sp: "splitRe_Split (strings_TrimSpace ''2btc;atom'') = [''2btc'', ''atom'']"
    by (simp add: t4)
  have t: "ParseDecCoin example_decls ''atom'' =
     Inl (fmt_Errorf ''failed to parse decimal coin: %s''
       [ArgError (fmt_Errorf ''invalid decimal coin expression %q'' [ArgString ''atom''])])"
    by (simp add: ParseDecCoin_def parseDecCoinString_def t5 example_defs)
  have f: "ParseDecCoins example_decls ''2btc;atom'' =
     ([], Some (fmt_Errorf ''failed to parse decimal coin: %s''
       [ArgError (fmt_Errorf ''invalid decimal coin expression %q'' [ArgString ''atom''])]))"
    by (simp add: ParseDecCoins_def ParseDecCoin_def parseDecCoinString_def t2 t4 t5
          DecCoins_Sort_def DecCoin_Validate_def validateDecCoinAmount_def Dec_defs example_defs)
  show ?thesis using e u ok v sp t f by blast
qed

end
